theory Spec2Isabelle
  imports Main "HOL-Library.Multiset"
begin

section \<open>Request values\<close>

text \<open>
  The handlers read fields of \<open>req.body\<close>, which \<open>express.json()\<close> fills from any JSON
  document, and test them with JavaScript truthiness. A field is absent (\<open>undefined\<close>),
  \<open>null\<close>, a boolean, a number, a string, or an array or object. Only truthiness and
  being a string matter to the handlers, so a number is kept as an integer (a fractional
  number behaves as any non-zero one). Of the objects one kind is read by Prisma:
  \<open>SetOp v\<close> is the object \<open>{ set: v }\<close>, which Prisma's update takes for the value \<open>v\<close> of a
  column; every other array or object is \<open>Object\<close>.
\<close>

datatype jsval =
  Undefined | Null | Boolean bool | Number int | Str string | SetOp jsval | Object

text \<open>\<open>!v\<close> is false exactly for the truthy values.\<close>

fun truthy :: "jsval \<Rightarrow> bool" where
  "truthy (Str s) = (s \<noteq> [])"
| "truthy (Number n) = (n \<noteq> 0)"
| "truthy (Boolean b) = b"
| "truthy (SetOp v) = True"
| "truthy Object = True"
| "truthy Undefined = False"
| "truthy Null = False"

fun is_string :: "jsval \<Rightarrow> bool" where
  "is_string (Str s) = True"
| "is_string (Number n) = False"
| "is_string (Boolean b) = False"
| "is_string (SetOp v) = False"
| "is_string Object = False"
| "is_string Undefined = False"
| "is_string Null = False"

text \<open>The string carried by a string value.\<close>

fun str_of :: "jsval \<Rightarrow> string" where
  "str_of (Str s) = s"
| "str_of (Number n) = []"
| "str_of (Boolean b) = []"
| "str_of (SetOp v) = []"
| "str_of Object = []"
| "str_of Undefined = []"
| "str_of Null = []"

text \<open>
  The value Prisma's update assigns to a column when the data holds \<open>v\<close> for it: \<open>v\<close>
  itself, or the operand of \<open>{ set: ... }\<close>.
\<close>

fun set_value :: "jsval \<Rightarrow> jsval" where
  "set_value (SetOp v) = v"
| "set_value (Str s) = Str s"
| "set_value (Number n) = Number n"
| "set_value (Boolean b) = Boolean b"
| "set_value Object = Object"
| "set_value Undefined = Undefined"
| "set_value Null = Null"

section \<open>Schema (schema.prisma)\<close>

text \<open>
  The three models of the hierarchy. \<open>order\<close> is a Prisma \<open>Int\<close>, a signed 32-bit column.
  The fields keep the schema's names behind the initial of their model (\<open>id\<close> and \<open>order\<close>
  are names of HOL's own). A task carries its two timestamps, as clock readings:
  \<open>createdAt\<close> is written at the insert and \<open>updatedAt\<close> (\<open>@updatedAt\<close>) is rewritten by every
  update of the row. The timestamps of projects and boards are written at the insert
  and rewritten only by the name updates, which are not among the handlers below; they
  are left out.
\<close>

record project =
  p_id :: string
  p_name :: string
  p_authorId :: string

record board =
  b_id :: string
  b_name :: string
  b_order :: int
  b_projectId :: string

record task =
  t_id :: string
  t_title :: string
  t_description :: "string option"
  t_order :: int
  t_boardId :: string
  t_createdAt :: nat
  t_updatedAt :: nat

text \<open>The database: one list of rows per table, in insertion order.\<close>

record store =
  projects :: "project list"
  boards :: "board list"
  tasks :: "task list"

text \<open>What a Prisma call or the handler's own code can throw.\<close>

datatype error =
    TypeError
  | InvalidTaskData
  | ValidationError
  | RecordNotFound
  | ForeignKeyViolation
  | UniqueViolation

definition int4 :: "int \<Rightarrow> bool" where
  "int4 n = (- 2147483648 \<le> n \<and> n \<le> 2147483647)"

definition project_ids :: "store \<Rightarrow> string list" where
  "project_ids s = map p_id (projects s)"

definition board_ids :: "store \<Rightarrow> string list" where
  "board_ids s = map b_id (boards s)"

definition task_ids :: "store \<Rightarrow> string list" where
  "task_ids s = map t_id (tasks s)"

text \<open>
  The constraints the schema puts on every state of the database: \<open>@id\<close> makes the ids of
  a table unique, \<open>@relation(fields: [projectId], references: [id])\<close> and its analogue
  on \<open>Task\<close> are foreign keys.
\<close>

definition wf_store :: "store \<Rightarrow> bool" where
  "wf_store s =
     (distinct (project_ids s) \<and> distinct (board_ids s) \<and> distinct (task_ids s) \<and>
      (\<forall>b \<in> set (boards s). b_projectId b \<in> set (project_ids s)) \<and>
      (\<forall>t \<in> set (tasks s). t_boardId t \<in> set (board_ids s)))"

section \<open>Prisma client calls\<close>

subsection \<open>Reads\<close>

definition findBoard :: "store \<Rightarrow> string \<Rightarrow> board option" where
  "findBoard s i = find (\<lambda>b. b_id b = i) (boards s)"

definition findTask :: "store \<Rightarrow> string \<Rightarrow> task option" where
  "findTask s i = find (\<lambda>t. t_id t = i) (tasks s)"

text \<open>
  \<open>prisma.board.findFirst({ where: { projectId }, orderBy: { order: 'desc' } })\<close>. Which of
  several rows with the largest order is returned is the database's choice; the handler
  reads only the order of the row.
\<close>

definition board_findFirst_desc :: "store \<Rightarrow> string \<Rightarrow> board option" where
  "board_findFirst_desc s projectId =
     (case sort_key (\<lambda>b. - b_order b) (filter (\<lambda>b. b_projectId b = projectId) (boards s)) of
        [] \<Rightarrow> None
      | b # _ \<Rightarrow> Some b)"

text \<open>\<open>prisma.task.findFirst({ where: { boardId }, orderBy: { order: 'desc' } })\<close>, likewise.\<close>

definition task_findFirst_desc :: "store \<Rightarrow> string \<Rightarrow> task option" where
  "task_findFirst_desc s boardId =
     (case sort_key (\<lambda>t. - t_order t) (filter (\<lambda>t. t_boardId t = boardId) (tasks s)) of
        [] \<Rightarrow> None
      | t # _ \<Rightarrow> Some t)"

text \<open>
  \<open>prisma.task.findMany({ where: { boardId }, orderBy: { order: 'asc' } })\<close>. \<open>ORDER BY\<close>
  fixes the result only up to the order of rows with equal \<open>order\<close>, which PostgreSQL is
  free to choose. The call is therefore the set of its possible results: \<open>rows\<close> is one
  when it holds the tasks of the board, each once, in ascending order.
\<close>

definition task_findMany_asc :: "store \<Rightarrow> string \<Rightarrow> task list \<Rightarrow> bool" where
  "task_findMany_asc s boardId rows =
     (mset rows = mset (filter (\<lambda>t. t_boardId t = boardId) (tasks s)) \<and>
      sorted (map t_order rows))"

subsection \<open>Writes\<close>

text \<open>
  \<open>prisma.board.create({ data: { name, projectId, order } })\<close>, returning the new row. The
  id is the store's \<open>@default(cuid())\<close>, taken here as an argument. The client refuses a
  name that is not a string and an order that does not fit the column; the store
  refuses an id that is taken and a project that does not exist.
\<close>

definition board_create ::
  "store \<Rightarrow> string \<Rightarrow> jsval \<Rightarrow> string \<Rightarrow> int \<Rightarrow> error + board \<times> store" where
  "board_create s new_id name projectId ord =
     (if \<not> is_string name \<or> \<not> int4 ord then Inl ValidationError
      else if new_id \<in> set (board_ids s) then Inl UniqueViolation
      else if projectId \<notin> set (project_ids s) then Inl ForeignKeyViolation
      else
        (let b = \<lparr>b_id = new_id, b_name = str_of name, b_order = ord, b_projectId = projectId\<rparr>
         in Inr (b, s\<lparr>boards := boards s @ [b]\<rparr>)))"

text \<open>
  \<open>prisma.task.create({ data: { title, description, boardId, order } })\<close>. The description
  must be a string or \<open>null\<close>. The two timestamps are the clock readings taken for the
  insert.
\<close>

definition task_create ::
  "store \<Rightarrow> string \<Rightarrow> jsval \<Rightarrow> jsval \<Rightarrow> string \<Rightarrow> int \<Rightarrow> nat \<Rightarrow> nat \<Rightarrow> error + task \<times> store" where
  "task_create s new_id title description boardId ord createdAt updatedAt =
     (if \<not> is_string title \<or> \<not> (description = Null \<or> is_string description) \<or> \<not> int4 ord
      then Inl ValidationError
      else if new_id \<in> set (task_ids s) then Inl UniqueViolation
      else if boardId \<notin> set (board_ids s) then Inl ForeignKeyViolation
      else
        (let t = \<lparr>t_id = new_id, t_title = str_of title,
                  t_description = (if description = Null then None else Some (str_of description)),
                  t_order = ord, t_boardId = boardId,
                  t_createdAt = createdAt, t_updatedAt = updatedAt\<rparr>
         in Inr (t, s\<lparr>tasks := tasks s @ [t]\<rparr>)))"

text \<open>
  \<open>prisma.task.update({ where: { id }, data: { order, boardId } })\<close>, run at clock reading
  \<open>now\<close>. The client refuses a \<open>where\<close> without a string id, a board id that is neither a
  string nor \<open>{ set: string }\<close> and an order outside the column's range; the store refuses an id that matches
  no row and a board that does not exist. The update rewrites \<open>updatedAt\<close>.
\<close>

definition task_update_order :: "nat \<Rightarrow> store \<Rightarrow> jsval \<Rightarrow> int \<Rightarrow> jsval \<Rightarrow> error + store" where
  "task_update_order now s wid ord boardId =
     (if \<not> is_string wid \<or> \<not> is_string (set_value boardId) \<or> \<not> int4 ord
      then Inl ValidationError
      else if str_of wid \<notin> set (task_ids s) then Inl RecordNotFound
      else if str_of (set_value boardId) \<notin> set (board_ids s) then Inl ForeignKeyViolation
      else Inr (s\<lparr>tasks :=
             map (\<lambda>t. if t_id t = str_of wid
                       then t\<lparr>t_order := ord, t_boardId := str_of (set_value boardId),
                              t_updatedAt := now\<rparr>
                       else t)
               (tasks s)\<rparr>))"

text \<open>
  The \<open>data\<close> object of \<open>PATCH /api/tasks/:taskId\<close>: a key is present or not, and a present
  key holds whatever value the body gave.
\<close>

record task_data =
  d_title :: "jsval option"
  d_description :: "jsval option"

text \<open>
  The client accepts a title whose value is a string and a description whose value is a
  string or \<open>null\<close>, each given as it is or as \<open>{ set: ... }\<close>.
\<close>

definition valid_data :: "task_data \<Rightarrow> bool" where
  "valid_data d =
     ((case d_title d of None \<Rightarrow> True | Some v \<Rightarrow> is_string (set_value v)) \<and>
      (case d_description d of
         None \<Rightarrow> True
       | Some v \<Rightarrow> set_value v = Null \<or> is_string (set_value v)))"

definition apply_data :: "task_data \<Rightarrow> nat \<Rightarrow> task \<Rightarrow> task" where
  "apply_data d now t =
     t\<lparr>t_title := (case d_title d of None \<Rightarrow> t_title t | Some v \<Rightarrow> str_of (set_value v)),
       t_description :=
         (case d_description d of
            None \<Rightarrow> t_description t
          | Some v \<Rightarrow> (if set_value v = Null then None else Some (str_of (set_value v)))),
       t_updatedAt := now\<rparr>"

text \<open>
  \<open>prisma.task.update({ where: { id: taskId }, data })\<close>, run at clock reading \<open>now\<close> and
  returning the updated row.
\<close>

definition task_update_fields ::
  "nat \<Rightarrow> store \<Rightarrow> string \<Rightarrow> task_data \<Rightarrow> error + (task \<times> store)" where
  "task_update_fields now s i d =
     (if \<not> valid_data d then Inl ValidationError
      else
        (case findTask s i of
           None \<Rightarrow> Inl RecordNotFound
         | Some t \<Rightarrow>
             Inr (apply_data d now t,
                  s\<lparr>tasks := map (\<lambda>t. if t_id t = i then apply_data d now t else t) (tasks s)\<rparr>)))"

text \<open>
  Deletes. \<open>onDelete: Cascade\<close> on \<open>Board.project\<close> and \<open>Task.board\<close> removes the boards of
  a deleted project and the tasks of a deleted board in the same statement.
\<close>

definition task_delete :: "store \<Rightarrow> string \<Rightarrow> error + store" where
  "task_delete s i =
     (if i \<notin> set (task_ids s) then Inl RecordNotFound
      else Inr (s\<lparr>tasks := filter (\<lambda>t. t_id t \<noteq> i) (tasks s)\<rparr>))"

definition board_delete :: "store \<Rightarrow> string \<Rightarrow> error + store" where
  "board_delete s i =
     (if i \<notin> set (board_ids s) then Inl RecordNotFound
      else Inr (s\<lparr>boards := filter (\<lambda>b. b_id b \<noteq> i) (boards s),
                  tasks := filter (\<lambda>t. t_boardId t \<noteq> i) (tasks s)\<rparr>))"

definition project_delete :: "store \<Rightarrow> string \<Rightarrow> error + store" where
  "project_delete s i =
     (if i \<notin> set (project_ids s) then Inl RecordNotFound
      else
        (let gone = map b_id (filter (\<lambda>b. b_projectId b = i) (boards s))
         in Inr (s\<lparr>projects := filter (\<lambda>p. p_id p \<noteq> i) (projects s),
                    boards := filter (\<lambda>b. b_projectId b \<noteq> i) (boards s),
                    tasks := filter (\<lambda>t. t_boardId t \<notin> set gone) (tasks s)\<rparr>)))"

subsection \<open>Transactions\<close>

text \<open>
  A call such as \<open>prisma.task.update(...)\<close> returns a lazy promise: nothing reaches the
  database until it is awaited or handed to \<open>prisma.$transaction\<close>. The promise is the
  data of the call.
\<close>

datatype task_update = TaskUpdate jsval int jsval

fun exec_update :: "nat \<Rightarrow> store \<Rightarrow> task_update \<Rightarrow> error + store" where
  "exec_update now s (TaskUpdate wid ord boardId) = task_update_order now s wid ord boardId"

text \<open>
  \<open>prisma.$transaction(updatePromises)\<close> runs the updates in sequence inside one database
  transaction. The first failure aborts it: the result is the error alone, and the
  caller is left with the store it had. \<open>clk k\<close> is the clock reading at which the update
  at position \<open>k\<close> runs.
\<close>

fun transaction :: "(nat \<Rightarrow> nat) \<Rightarrow> nat \<Rightarrow> store \<Rightarrow> task_update list \<Rightarrow> error + store" where
  "transaction clk k s [] = Inr s"
| "transaction clk k s (u # us) =
     (case exec_update (clk k) s u of
        Inl e \<Rightarrow> Inl e
      | Inr s' \<Rightarrow> transaction clk (Suc k) s' us)"

section \<open>Responses\<close>

datatype body =
    Message string
  | BoardJson board
  | TaskJson task
  | TasksJson "task list"
  | NoContent

record response =
  status :: nat
  body :: body

definition respond :: "nat \<Rightarrow> body \<Rightarrow> response" where
  "respond c b = \<lparr>status = c, body = b\<rparr>"

section \<open>Board and task handlers\<close>

text \<open>
  \<open>POST /api/projects/:projectId/boards\<close>. The store effect of the handler is the same in
  both versions of the server; the version with Socket.IO also publishes the new board
  (see \<open>post_boards_rt\<close>).
\<close>

definition post_boards :: "string \<Rightarrow> jsval \<Rightarrow> string \<Rightarrow> store \<Rightarrow> response \<times> store" where
  "post_boards projectId name new_id s =
     (if \<not> truthy name then (respond 400 (Message ''Board name is required''), s)
      else
        (let lastBoard = board_findFirst_desc s projectId;
             newOrder = (case lastBoard of Some l \<Rightarrow> b_order l + 1 | None \<Rightarrow> 0)
         in case board_create s new_id name projectId newOrder of
              Inl e \<Rightarrow> (respond 500 (Message ''Failed to create board''), s)
            | Inr (newBoard, s') \<Rightarrow> (respond 201 (BoardJson newBoard), s')))"

text \<open>
  \<open>GET /api/boards/:boardId/tasks\<close>: the responses the handler can give, one for each
  result of the query.
\<close>

definition get_tasks :: "string \<Rightarrow> store \<Rightarrow> response \<Rightarrow> bool" where
  "get_tasks boardId s r =
     (case body r of
        TasksJson rows \<Rightarrow> status r = 200 \<and> task_findMany_asc s boardId rows
      | Message m \<Rightarrow> False
      | BoardJson b \<Rightarrow> False
      | TaskJson t \<Rightarrow> False
      | NoContent \<Rightarrow> False)"

text \<open>
  \<open>POST /api/boards/:boardId/tasks\<close>; the description stored is \<open>description || null\<close>.
\<close>

definition post_tasks ::
  "string \<Rightarrow> jsval \<Rightarrow> jsval \<Rightarrow> string \<Rightarrow> nat \<Rightarrow> nat \<Rightarrow> store \<Rightarrow> response \<times> store" where
  "post_tasks boardId title description new_id createdAt updatedAt s =
     (if \<not> truthy title then (respond 400 (Message ''Task title is required''), s)
      else
        (let lastTask = task_findFirst_desc s boardId;
             newOrder = (case lastTask of Some l \<Rightarrow> t_order l + 1 | None \<Rightarrow> 0)
         in case task_create s new_id title (if truthy description then description else Null)
                   boardId newOrder createdAt updatedAt of
              Inl e \<Rightarrow> (respond 500 (Message ''Failed to create task''), s)
            | Inr (newTask, s') \<Rightarrow> (respond 201 (TaskJson newTask), s')))"



text \<open>The three deletes.\<close>

definition delete_project :: "string \<Rightarrow> store \<Rightarrow> response \<times> store" where
  "delete_project projectId s =
     (case project_delete s projectId of
        Inl e \<Rightarrow> (respond 500 (Message ''Failed to delete project''), s)
      | Inr s' \<Rightarrow> (respond 204 NoContent, s'))"

definition delete_board :: "string \<Rightarrow> store \<Rightarrow> response \<times> store" where
  "delete_board boardId s =
     (case board_delete s boardId of
        Inl e \<Rightarrow> (respond 500 (Message ''Failed to delete board''), s)
      | Inr s' \<Rightarrow> (respond 204 NoContent, s'))"

definition delete_task :: "string \<Rightarrow> store \<Rightarrow> response \<times> store" where
  "delete_task taskId s =
     (case task_delete s taskId of
        Inl e \<Rightarrow> (respond 500 (Message ''Failed to delete task''), s)
      | Inr s' \<Rightarrow> (respond 204 NoContent, s'))"

section \<open>Reorder handlers\<close>

text \<open>
  An element of \<open>orderedTasks\<close>: \<open>null\<close>, or an object with an \<open>id\<close> and whatever else the
  client sends along, of which \<open>boardId\<close> is the element's own parent reference. Neither
  handler reads any field but \<open>id\<close>. An element that is a number, a boolean or a string
  has no \<open>id\<close> to read and is an \<open>ElemObj Undefined Undefined\<close> to both handlers.
\<close>

datatype elem = ElemNull | ElemObj jsval jsval

fun elem_id :: "elem \<Rightarrow> jsval" where
  "elem_id (ElemObj i p) = i"
| "elem_id ElemNull = Undefined"

fun elem_boardId :: "elem \<Rightarrow> jsval" where
  "elem_boardId (ElemObj i p) = p"
| "elem_boardId ElemNull = Undefined"

text \<open>The body: \<open>orderedTasks\<close> is \<open>None\<close> when it is not an array.\<close>

record reorder_body =
  req_boardId :: jsval
  req_orderedTasks :: "elem list option"

text \<open>
  \<open>orderedTasks.map((task, index) => ...)\<close> of \<open>POST /api/tasks/reorder\<close>, from index \<open>i\<close> on:
  the callback throws on the first element that is falsy or has a falsy id, which
  abandons the whole map.
\<close>

fun updatePromises_post :: "jsval \<Rightarrow> nat \<Rightarrow> elem list \<Rightarrow> error + task_update list" where
  "updatePromises_post b i [] = Inr []"
| "updatePromises_post b i (ElemNull # es) = Inl InvalidTaskData"
| "updatePromises_post b i (ElemObj tid p # es) =
     (if \<not> truthy tid then Inl InvalidTaskData
      else
        (case updatePromises_post b (Suc i) es of
           Inl e \<Rightarrow> Inl e
         | Inr us \<Rightarrow> Inr (TaskUpdate tid (int i) b # us)))"

text \<open>
  The same map in \<open>PATCH /api/task/reorder\<close>: no test on the element, so reading \<open>task.id\<close>
  of \<open>null\<close> throws a TypeError and any other element yields an update.
\<close>

fun updatePromises_patch :: "jsval \<Rightarrow> nat \<Rightarrow> elem list \<Rightarrow> error + task_update list" where
  "updatePromises_patch b i [] = Inr []"
| "updatePromises_patch b i (ElemNull # es) = Inl TypeError"
| "updatePromises_patch b i (ElemObj tid p # es) =
     (case updatePromises_patch b (Suc i) es of
        Inl e \<Rightarrow> Inl e
      | Inr us \<Rightarrow> Inr (TaskUpdate tid (int i) b # us))"

text \<open>\<open>POST /api/tasks/reorder\<close> (the server with Socket.IO)\<close>

definition reorder_post :: "reorder_body \<Rightarrow> (nat \<Rightarrow> nat) \<Rightarrow> store \<Rightarrow> response \<times> store" where
  "reorder_post req clk s =
     (if \<not> truthy (req_boardId req) \<or> req_orderedTasks req = None
      then (respond 400 (Message ''Board ID and an array of ordered tasks are required.''), s)
      else
        (let es = the (req_orderedTasks req) in
         if length es = 0 then (respond 200 (Message ''No tasks to reorder.''), s)
         else
           (case updatePromises_post (req_boardId req) 0 es of
              Inl e \<Rightarrow> (respond 500 (Message ''Failed to reorder tasks''), s)
            | Inr updatePromises \<Rightarrow>
                (case transaction clk 0 s updatePromises of
                   Inl e \<Rightarrow> (respond 500 (Message ''Failed to reorder tasks''), s)
                 | Inr s' \<Rightarrow> (respond 200 (Message ''Tasks reordered successfully''), s')))))"

text \<open>\<open>PATCH /api/task/reorder\<close> (the server without Socket.IO)\<close>

definition reorder_patch :: "reorder_body \<Rightarrow> (nat \<Rightarrow> nat) \<Rightarrow> store \<Rightarrow> response \<times> store" where
  "reorder_patch req clk s =
     (if \<not> truthy (req_boardId req) \<or> req_orderedTasks req = None
      then (respond 400 (Message ''Board ID and an array of ordered task are required''), s)
      else
        (case updatePromises_patch (req_boardId req) 0 (the (req_orderedTasks req)) of
           Inl e \<Rightarrow> (respond 500 (Message ''Failed to reorder tasks''), s)
         | Inr updatePromises \<Rightarrow>
             (case transaction clk 0 s updatePromises of
                Inl e \<Rightarrow> (respond 500 (Message ''Failed to reorder tasks''), s)
              | Inr s' \<Rightarrow> (respond 200 (Message ''Tasks reordered succesfully''), s'))))"

section \<open>Real-time channel (Socket.IO)\<close>

text \<open>
  The room registry of the Socket.IO server: the pairs (socket id, room) of the sockets
  now connected. Socket.IO puts every socket in the room named by its own id when it
  connects and takes it out of every room when it disconnects; the only room the
  server's own code joins a socket to is the one named in a \<open>joinProject\<close> message.
\<close>

type_synonym registry = "(string \<times> string) list"

definition join :: "string \<Rightarrow> string \<Rightarrow> registry \<Rightarrow> registry" where
  "join sid room reg = (if (sid, room) \<in> set reg then reg else reg @ [(sid, room)])"

definition on_connection :: "string \<Rightarrow> registry \<Rightarrow> registry" where
  "on_connection sid reg = join sid sid reg"

definition on_joinProject :: "string \<Rightarrow> string \<Rightarrow> registry \<Rightarrow> registry" where
  "on_joinProject sid projectId reg = join sid projectId reg"

definition on_disconnect :: "string \<Rightarrow> registry \<Rightarrow> registry" where
  "on_disconnect sid reg = filter (\<lambda>(s, r). s \<noteq> sid) reg"

datatype event = BoardCreated board

text \<open>
  \<open>io.to(room).emit(event, payload)\<close>: one delivery to each socket that is in the room.
\<close>

definition to_emit :: "registry \<Rightarrow> string \<Rightarrow> event \<Rightarrow> (string \<times> event) list" where
  "to_emit reg room ev =
     map (\<lambda>sid. (sid, ev)) (remdups (map fst (filter (\<lambda>(sid, r). r = room) reg)))"

text \<open>
  \<open>POST /api/projects/:projectId/boards\<close> of the server with Socket.IO: the handler above,
  followed on success by \<open>io.to(projectId).emit('board:created', newBoard)\<close>. The third
  component is the list of deliveries.
\<close>

definition post_boards_rt ::
  "string \<Rightarrow> jsval \<Rightarrow> string \<Rightarrow> registry \<Rightarrow> store \<Rightarrow> response \<times> store \<times> (string \<times> event) list" where
  "post_boards_rt projectId name new_id reg s =
     (if \<not> truthy name then (respond 400 (Message ''Board name is required''), s, [])
      else
        (let lastBoard = board_findFirst_desc s projectId;
             newOrder = (case lastBoard of Some l \<Rightarrow> b_order l + 1 | None \<Rightarrow> 0)
         in case board_create s new_id name projectId newOrder of
              Inl e \<Rightarrow> (respond 500 (Message ''Failed to create board''), s, [])
            | Inr (newBoard, s') \<Rightarrow>
                (respond 201 (BoardJson newBoard), s',
                 to_emit reg projectId (BoardCreated newBoard))))"

section \<open>Requests issued one after another\<close>

text \<open>
  A client that creates boards under one project serially: each request is a name and
  the id the store draws for the row; each runs on the store the previous one left.
\<close>

fun create_boards_serial ::
  "string \<Rightarrow> (jsval \<times> string) list \<Rightarrow> registry \<Rightarrow> store \<Rightarrow> response list \<times> store" where
  "create_boards_serial projectId [] reg s = ([], s)"
| "create_boards_serial projectId ((name, new_id) # rs) reg s =
     (case post_boards_rt projectId name new_id reg s of
        (r, s', ds) \<Rightarrow>
          (case create_boards_serial projectId rs reg s' of
             (rs', s'') \<Rightarrow> (r # rs', s'')))"

text \<open>
  The same for tasks under one board: title, description, drawn id and the two clock
  readings of the insert.
\<close>

fun create_tasks_serial ::
  "string \<Rightarrow> (jsval \<times> jsval \<times> string \<times> nat \<times> nat) list \<Rightarrow> store \<Rightarrow> response list \<times> store" where
  "create_tasks_serial boardId [] s = ([], s)"
| "create_tasks_serial boardId ((title, description, new_id, createdAt, updatedAt) # rs) s =
     (case post_tasks boardId title description new_id createdAt updatedAt s of
        (r, s') \<Rightarrow>
          (case create_tasks_serial boardId rs s' of
             (rs', s'') \<Rightarrow> (r # rs', s'')))"

section \<open>A small database\<close>

text \<open>
  Three projects; project \<open>pX\<close> has boards \<open>bA\<close> (tasks \<open>t1\<close>, \<open>t2\<close>) and \<open>bB\<close> (task \<open>t3\<close>),
  project \<open>pY\<close> has the empty board \<open>bC\<close>, project \<open>pZ\<close> has no board.
\<close>

definition demo_store :: store where
  "demo_store =
     \<lparr>projects =
        [\<lparr>p_id = ''pX'', p_name = ''X'', p_authorId = ''u1''\<rparr>,
         \<lparr>p_id = ''pY'', p_name = ''Y'', p_authorId = ''u1''\<rparr>,
         \<lparr>p_id = ''pZ'', p_name = ''Z'', p_authorId = ''u2''\<rparr>],
      boards =
        [\<lparr>b_id = ''bA'', b_name = ''todo'', b_order = 0, b_projectId = ''pX''\<rparr>,
         \<lparr>b_id = ''bB'', b_name = ''done'', b_order = 1, b_projectId = ''pX''\<rparr>,
         \<lparr>b_id = ''bC'', b_name = ''todo'', b_order = 0, b_projectId = ''pY''\<rparr>],
      tasks =
        [\<lparr>t_id = ''t1'', t_title = ''write'', t_description = None, t_order = 0,
          t_boardId = ''bA'', t_createdAt = 10, t_updatedAt = 10\<rparr>,
         \<lparr>t_id = ''t2'', t_title = ''test'', t_description = Some ''all'', t_order = 1,
          t_boardId = ''bA'', t_createdAt = 20, t_updatedAt = 25\<rparr>,
         \<lparr>t_id = ''t3'', t_title = ''ship'', t_description = None, t_order = 0,
          t_boardId = ''bB'', t_createdAt = 30, t_updatedAt = 30\<rparr>]\<rparr>"

text \<open>A clock for the statements of a batch: statement \<open>k\<close> runs at time \<open>100 + k\<close>.\<close>

definition demo_clock :: "nat \<Rightarrow> nat" where
  "demo_clock k = 100 + k"

text \<open>Two sockets, one joined to each project.\<close>

definition demo_registry :: registry where
  "demo_registry =
     on_joinProject ''s2'' ''pY'' (on_connection ''s2''
       (on_joinProject ''s1'' ''pX'' (on_connection ''s1'' [])))"

section \<open>The batch of a reorder request\<close>

text \<open>
  The updates both maps build from the \<open>id\<close> values of the elements, counted from \<open>i\<close>:
  position \<open>j\<close> of the array becomes the update to order \<open>i + j\<close> and board \<open>b\<close>.
\<close>

fun ops_from :: "jsval \<Rightarrow> nat \<Rightarrow> jsval list \<Rightarrow> task_update list" where
  "ops_from b i [] = []"
| "ops_from b i (w # ws) = TaskUpdate w (int i) b # ops_from b (Suc i) ws"

text \<open>
  What such a batch, run in sequence with the clock \<open>clk\<close>, makes of one row.
\<close>

fun final_row :: "(nat \<Rightarrow> nat) \<Rightarrow> string \<Rightarrow> nat \<Rightarrow> jsval list \<Rightarrow> task \<Rightarrow> task" where
  "final_row clk b i [] t = t"
| "final_row clk b i (w # ws) t =
     final_row clk b (Suc i) ws
       (if Str (t_id t) = w then t\<lparr>t_order := int i, t_boardId := b, t_updatedAt := clk i\<rparr> else t)"

section \<open>Example requests\<close>

text \<open>A reorder of board \<open>bA\<close> that names a task that does not exist.\<close>

definition demo_req :: reorder_body where
  "demo_req = \<lparr>req_boardId = Str ''bA'',
     req_orderedTasks = Some [ElemObj (Str ''t2'') Undefined, ElemObj (Str ''nonexistent'') Undefined]\<rparr>"

text \<open>A reorder of board \<open>bA\<close> whose second element has no id.\<close>

definition demo_req_noid :: reorder_body where
  "demo_req_noid = \<lparr>req_boardId = Str ''bA'',
     req_orderedTasks = Some [ElemObj (Str ''t2'') Undefined, ElemObj Undefined Undefined]\<rparr>"

text \<open>
  A reorder of board \<open>bB\<close> that lists task \<open>t1\<close> of board \<open>bA\<close>; no element carries a
  parent reference of its own.
\<close>

definition demo_req_move :: reorder_body where
  "demo_req_move = \<lparr>req_boardId = Str ''bB'',
     req_orderedTasks = Some [ElemObj (Str ''t3'') Undefined, ElemObj (Str ''t1'') Undefined]\<rparr>"

text \<open>A reorder of board \<open>bA\<close> that lists its two tasks in the opposite order.\<close>

definition demo_req_perm :: reorder_body where
  "demo_req_perm = \<lparr>req_boardId = Str ''bA'',
     req_orderedTasks = Some [ElemObj (Str ''t2'') Undefined, ElemObj (Str ''t1'') (Str ''bA'')]\<rparr>"

text \<open>Three board creates under project \<open>pZ\<close> and two task creates under board \<open>bC\<close>.\<close>

definition demo_board_creates :: "(jsval \<times> string) list" where
  "demo_board_creates = [(Str ''todo'', ''n1''), (Str ''doing'', ''n2''), (Str ''done'', ''n3'')]"

definition demo_task_creates :: "(jsval \<times> jsval \<times> string \<times> nat \<times> nat) list" where
  "demo_task_creates =
     [(Str ''plan'', Undefined, ''m1'', 40, 41), (Str ''build'', Str ''all of it'', ''m2'', 50, 50)]"

section \<open>Lemmas on the reorder batch\<close>

lemma updatePromises_post_Inr:
  "updatePromises_post b i es = Inr us \<Longrightarrow>
     (\<forall>e \<in> set es. truthy (elem_id e)) \<and> us = ops_from b i (map elem_id es)"
  by (induction b i es arbitrary: us rule: updatePromises_post.induct)
     (auto split: if_splits sum.splits)

lemma updatePromises_post_Inl:
  "updatePromises_post b i es = Inl e \<Longrightarrow> \<exists>x \<in> set es. \<not> truthy (elem_id x)"
  by (induction b i es rule: updatePromises_post.induct)
     (auto split: if_splits sum.splits)

lemma updatePromises_patch_Inr:
  "updatePromises_patch b i es = Inr us \<Longrightarrow>
     ElemNull \<notin> set es \<and> us = ops_from b i (map elem_id es)"
  by (induction b i es arbitrary: us rule: updatePromises_patch.induct)
     (auto split: if_splits sum.splits)

lemma updatePromises_patch_Inl:
  "updatePromises_patch b i es = Inl e \<Longrightarrow> ElemNull \<in> set es"
  by (induction b i es rule: updatePromises_patch.induct)
     (auto split: if_splits sum.splits)

lemma task_update_order_Inr:
  "task_update_order now s w ord b = Inr s' \<Longrightarrow>
     (\<exists>tid. w = Str tid \<and> tid \<in> set (task_ids s)) \<and> int4 ord \<and>
     is_string (set_value b) \<and> str_of (set_value b) \<in> set (board_ids s) \<and>
     projects s' = projects s \<and> boards s' = boards s \<and>
     tasks s' =
       map (\<lambda>t. if Str (t_id t) = w
                 then t\<lparr>t_order := ord, t_boardId := str_of (set_value b), t_updatedAt := now\<rparr>
                 else t)
         (tasks s)"
  by (cases w) (auto simp: task_update_order_def split: if_splits)

lemma task_update_order_ids:
  "task_update_order now s w ord b = Inr s' \<Longrightarrow> task_ids s' = task_ids s \<and> board_ids s' = board_ids s"
  by (drule task_update_order_Inr) (auto simp: task_ids_def board_ids_def comp_def)

lemma transaction_Inr:
  "transaction clk i s (ops_from b i ws) = Inr s' \<Longrightarrow>
     projects s' = projects s \<and> boards s' = boards s \<and>
     tasks s' = map (final_row clk (str_of (set_value b)) i ws) (tasks s) \<and>
     (\<forall>w \<in> set ws. \<exists>tid. w = Str tid \<and> tid \<in> set (task_ids s)) \<and>
     (ws \<noteq> [] \<longrightarrow> is_string (set_value b) \<and> str_of (set_value b) \<in> set (board_ids s)) \<and>
     (\<forall>j < length ws. int4 (int (i + j)))"
proof (induction ws arbitrary: s i)
  case Nil
  then show ?case by simp
next
  case (Cons w ws)
  from Cons.prems obtain s1 where
    s1: "task_update_order (clk i) s w (int i) b = Inr s1" and
    rest: "transaction clk (Suc i) s1 (ops_from b (Suc i) ws) = Inr s'"
    by (auto split: sum.splits)
  note u = task_update_order_Inr [OF s1] and ids = task_update_order_ids [OF s1]
  note ih = Cons.IH [OF rest]
  have "\<forall>j < length (w # ws). int4 (int (i + j))"
  proof (intro allI impI)
    fix j assume j: "j < length (w # ws)"
    show "int4 (int (i + j))"
    proof (cases j)
      case 0
      then show ?thesis using u by simp
    next
      case (Suc k)
      then show ?thesis using ih j by simp
    qed
  qed
  then show ?case using u ih ids by (simp add: comp_def)
qed

lemma final_row_frame:
  "t_id (final_row clk b i ws t) = t_id t \<and> t_title (final_row clk b i ws t) = t_title t \<and>
   t_description (final_row clk b i ws t) = t_description t \<and>
   t_createdAt (final_row clk b i ws t) = t_createdAt t"
  by (induction ws arbitrary: i t) auto

lemma final_row_untouched: "Str (t_id t) \<notin> set ws \<Longrightarrow> final_row clk b i ws t = t"
  by (induction ws arbitrary: i t) auto

lemma final_row_last:
  "j < length ws \<Longrightarrow> ws ! j = Str (t_id t) \<Longrightarrow> ws ! j \<notin> set (drop (Suc j) ws) \<Longrightarrow>
     t_order (final_row clk b i ws t) = int (i + j) \<and> t_boardId (final_row clk b i ws t) = b \<and>
     t_updatedAt (final_row clk b i ws t) = clk (i + j)"
proof (induction ws arbitrary: i j t)
  case Nil
  then show ?case by simp
next
  case (Cons w ws)
  show ?case
  proof (cases j)
    case 0
    with Cons.prems have "Str (t_id t) = w" "Str (t_id t) \<notin> set ws" by auto
    then show ?thesis
      using 0 final_row_untouched
        [of "t\<lparr>t_order := int i, t_boardId := b, t_updatedAt := clk i\<rparr>" ws clk b "Suc i"]
      by simp
  next
    case (Suc k)
    let ?t1 = "if Str (t_id t) = w
      then t\<lparr>t_order := int i, t_boardId := b, t_updatedAt := clk i\<rparr> else t"
    have id1: "t_id ?t1 = t_id t" by simp
    from Suc Cons.prems have "k < length ws" "ws ! k = Str (t_id ?t1)" "ws ! k \<notin> set (drop (Suc k) ws)"
      by auto
    from Cons.IH [OF this, of "Suc i"] show ?thesis using Suc by simp
  qed
qed

lemma exec_update_stable:
  "task_ids s1 = task_ids s \<Longrightarrow> board_ids s1 = board_ids s \<Longrightarrow>
     (\<exists>x. exec_update n1 s1 (TaskUpdate w ord b) = Inr x) =
     (\<exists>x. exec_update n s (TaskUpdate w ord b) = Inr x)"
  by (simp add: task_update_order_def)

lemma transaction_fails:
  assumes "j < length ws" and "exec_update now s (TaskUpdate (ws ! j) (int (i + j)) b) = Inl err"
  shows "\<exists>e. transaction clk i s (ops_from b i ws) = Inl e"
proof (cases "transaction clk i s (ops_from b i ws)")
  case (Inl e)
  then show ?thesis by blast
next
  case (Inr s')
  from transaction_Inr [OF Inr] assms(1)
  have "\<exists>tid. ws ! j = Str tid \<and> tid \<in> set (task_ids s)" "is_string (set_value b)"
    "str_of (set_value b) \<in> set (board_ids s)" "int4 (int (i + j))"
    by auto
  with assms(2) show ?thesis by (auto simp: task_update_order_def)
qed

lemma transaction_commits:
  "\<forall>j < length ws. \<exists>x. exec_update (clk (i + j)) s (TaskUpdate (ws ! j) (int (i + j)) b) = Inr x \<Longrightarrow>
     \<exists>s'. transaction clk i s (ops_from b i ws) = Inr s'"
proof (induction ws arbitrary: s i)
  case Nil
  then show ?case by simp
next
  case (Cons w ws)
  from Cons.prems [rule_format, of 0] obtain s1 where
    s1: "exec_update (clk i) s (TaskUpdate w (int i) b) = Inr s1"
    by auto
  then have ids: "task_ids s1 = task_ids s" "board_ids s1 = board_ids s"
    using task_update_order_ids by auto
  have "\<forall>j < length ws.
      \<exists>x. exec_update (clk (Suc i + j)) s1 (TaskUpdate (ws ! j) (int (Suc i + j)) b) = Inr x"
  proof (intro allI impI)
    fix j assume "j < length ws"
    with Cons.prems [rule_format, of "Suc j"]
    have "\<exists>x. exec_update (clk (Suc i + j)) s (TaskUpdate (ws ! j) (int (Suc i + j)) b) = Inr x"
      by simp
    then show "\<exists>x. exec_update (clk (Suc i + j)) s1 (TaskUpdate (ws ! j) (int (Suc i + j)) b) = Inr x"
      using exec_update_stable [OF ids] by blast
  qed
  from Cons.IH [OF this] show ?case using s1 by simp
qed


lemma reorder_post_unfold:
  "truthy (req_boardId req) \<Longrightarrow> req_orderedTasks req = Some es \<Longrightarrow> es \<noteq> [] \<Longrightarrow>
     reorder_post req clk s =
       (case updatePromises_post (req_boardId req) 0 es of
          Inl e \<Rightarrow> (respond 500 (Message ''Failed to reorder tasks''), s)
        | Inr us \<Rightarrow>
            (case transaction clk 0 s us of
               Inl e \<Rightarrow> (respond 500 (Message ''Failed to reorder tasks''), s)
             | Inr s' \<Rightarrow> (respond 200 (Message ''Tasks reordered successfully''), s')))"
  by (simp add: reorder_post_def)

lemma reorder_patch_unfold:
  "truthy (req_boardId req) \<Longrightarrow> req_orderedTasks req = Some es \<Longrightarrow>
     reorder_patch req clk s =
       (case updatePromises_patch (req_boardId req) 0 es of
          Inl e \<Rightarrow> (respond 500 (Message ''Failed to reorder tasks''), s)
        | Inr us \<Rightarrow>
            (case transaction clk 0 s us of
               Inl e \<Rightarrow> (respond 500 (Message ''Failed to reorder tasks''), s)
             | Inr s' \<Rightarrow> (respond 200 (Message ''Tasks reordered succesfully''), s')))"
  by (simp add: reorder_patch_def)

lemma reorder_post_fails:
  assumes "truthy (req_boardId req)" and "req_orderedTasks req = Some es"
    and "j < length es"
    and "exec_update now s (TaskUpdate (elem_id (es ! j)) (int j) (req_boardId req)) = Inl err"
  shows "reorder_post req clk s = (respond 500 (Message ''Failed to reorder tasks''), s)"
proof -
  from assms(3) have ne: "es \<noteq> []" by auto
  show ?thesis
  proof (cases "updatePromises_post (req_boardId req) 0 es")
    case (Inl e)
    then show ?thesis using reorder_post_unfold [OF assms(1,2) ne] by simp
  next
    case (Inr us)
    from updatePromises_post_Inr [OF Inr]
    have us: "us = ops_from (req_boardId req) 0 (map elem_id es)" by simp
    from transaction_fails [of j "map elem_id es" now s 0 "req_boardId req" err clk] assms(3,4)
    obtain e where "transaction clk 0 s us = Inl e" using us by auto
    then show ?thesis using Inr reorder_post_unfold [OF assms(1,2) ne] by simp
  qed
qed

lemma reorder_patch_fails:
  assumes "truthy (req_boardId req)" and "req_orderedTasks req = Some es"
    and "j < length es"
    and "exec_update now s (TaskUpdate (elem_id (es ! j)) (int j) (req_boardId req)) = Inl err"
  shows "reorder_patch req clk s = (respond 500 (Message ''Failed to reorder tasks''), s)"
proof (cases "updatePromises_patch (req_boardId req) 0 es")
  case (Inl e)
  then show ?thesis using reorder_patch_unfold [OF assms(1,2)] by simp
next
  case (Inr us)
  from updatePromises_patch_Inr [OF Inr]
  have us: "us = ops_from (req_boardId req) 0 (map elem_id es)" by simp
  from transaction_fails [of j "map elem_id es" now s 0 "req_boardId req" err clk] assms(3,4)
  obtain e where "transaction clk 0 s us = Inl e" using us by auto
  then show ?thesis using Inr reorder_patch_unfold [OF assms(1,2)] by simp
qed

lemma reorder_post_rollback: "status (fst (reorder_post req clk s)) \<noteq> 200 \<Longrightarrow> snd (reorder_post req clk s) = s"
  by (auto simp: reorder_post_def respond_def Let_def split: sum.splits if_splits)

lemma reorder_patch_rollback: "status (fst (reorder_patch req clk s)) \<noteq> 200 \<Longrightarrow> snd (reorder_patch req clk s) = s"
  by (auto simp: reorder_patch_def respond_def Let_def split: sum.splits if_splits)

lemma reorder_post_200:
  assumes "truthy (req_boardId req)" and "req_orderedTasks req = Some es" and "es \<noteq> []"
    and "status (fst (reorder_post req clk s)) = 200"
  shows "(\<forall>e \<in> set es. truthy (elem_id e)) \<and>
         transaction clk 0 s (ops_from (req_boardId req) 0 (map elem_id es)) =
           Inr (snd (reorder_post req clk s))"
  using assms(4) updatePromises_post_Inr [of "req_boardId req" 0 es]
  by (auto simp: reorder_post_unfold [OF assms(1,2,3)] respond_def split: sum.splits)

lemma reorder_patch_200:
  assumes "truthy (req_boardId req)" and "req_orderedTasks req = Some es"
    and "status (fst (reorder_patch req clk s)) = 200"
  shows "transaction clk 0 s (ops_from (req_boardId req) 0 (map elem_id es)) =
           Inr (snd (reorder_patch req clk s))"
  using assms(3) updatePromises_patch_Inr [of "req_boardId req" 0 es]
  by (auto simp: reorder_patch_unfold [OF assms(1,2)] respond_def split: sum.splits)

section \<open>Empty reorder\<close>

text \<open>
  C7. A reorder request with a non-empty board id and an empty \<open>orderedTasks\<close> array is
  answered with status 200 by both reorder handlers, and the store (hence every task's
  order and board reference) is what it was before the request.
\<close>

theorem reorder_empty_noop:
  assumes "truthy (req_boardId req)" and "req_orderedTasks req = Some []"
  shows "status (fst (reorder_post req clk s)) = 200 \<and> snd (reorder_post req clk s) = s \<and>
         status (fst (reorder_patch req clk s)) = 200 \<and> snd (reorder_patch req clk s) = s"
  using assms by (simp add: reorder_post_def reorder_patch_def respond_def)

theorem reorder_empty_noop_witness:
  "truthy (req_boardId \<lparr>req_boardId = Str ''bA'', req_orderedTasks = Some []\<rparr>) \<and>
   req_orderedTasks \<lparr>req_boardId = Str ''bA'', req_orderedTasks = Some []\<rparr> = Some [] \<and>
   status (fst (reorder_post \<lparr>req_boardId = Str ''bA'', req_orderedTasks = Some []\<rparr> demo_clock demo_store)) = 200 \<and>
   snd (reorder_post \<lparr>req_boardId = Str ''bA'', req_orderedTasks = Some []\<rparr> demo_clock demo_store) = demo_store \<and>
   status (fst (reorder_patch \<lparr>req_boardId = Str ''bA'', req_orderedTasks = Some []\<rparr> demo_clock demo_store)) = 200 \<and>
   snd (reorder_patch \<lparr>req_boardId = Str ''bA'', req_orderedTasks = Some []\<rparr> demo_clock demo_store) = demo_store"
  using reorder_empty_noop [of "\<lparr>req_boardId = Str ''bA'', req_orderedTasks = Some []\<rparr>" demo_clock demo_store]
  by simp

section \<open>Atomicity of reorder\<close>

text \<open>
  C1. Take a reorder request with a non-empty board id and an array of elements. If the
  update built for some position \<open>j\<close> fails when run against the store (its task does not
  exist, its id is missing, the board does not exist, or the order does not fit the
  column), both reorder handlers answer 500 and return the store exactly as it was:
  every task keeps its order and its board. More generally, whenever a reorder handler
  answers anything but 200 the store is unchanged, so no part of a batch is ever kept.
\<close>

theorem reorder_atomic:
  "(truthy (req_boardId req) \<and> req_orderedTasks req = Some es \<and> j < length es \<and>
    exec_update (clk j) s (TaskUpdate (elem_id (es ! j)) (int j) (req_boardId req)) = Inl err
      \<longrightarrow> status (fst (reorder_post req clk s)) = 500 \<and> snd (reorder_post req clk s) = s \<and>
          status (fst (reorder_patch req clk s)) = 500 \<and> snd (reorder_patch req clk s) = s) \<and>
   (status (fst (reorder_post req clk s)) \<noteq> 200 \<longrightarrow> snd (reorder_post req clk s) = s) \<and>
   (status (fst (reorder_patch req clk s)) \<noteq> 200 \<longrightarrow> snd (reorder_patch req clk s) = s)"
  using reorder_post_fails [of req es j "clk j" s err clk]
    reorder_patch_fails [of req es j "clk j" s err clk]
    reorder_post_rollback [of req clk s] reorder_patch_rollback [of req clk s]
  by (simp add: respond_def)

theorem reorder_atomic_witness:
  "truthy (req_boardId demo_req) \<and>
   req_orderedTasks demo_req =
     Some [ElemObj (Str ''t2'') Undefined, ElemObj (Str ''nonexistent'') Undefined] \<and>
   exec_update (demo_clock 1) demo_store (TaskUpdate (Str ''nonexistent'') 1 (Str ''bA'')) = Inl RecordNotFound \<and>
   status (fst (reorder_post demo_req demo_clock demo_store)) = 500 \<and>
   snd (reorder_post demo_req demo_clock demo_store) = demo_store \<and>
   status (fst (reorder_patch demo_req demo_clock demo_store)) = 500 \<and>
   snd (reorder_patch demo_req demo_clock demo_store) = demo_store"
proof -
  have h: "exec_update (demo_clock 1) demo_store (TaskUpdate (Str ''nonexistent'') 1 (Str ''bA'')) = Inl RecordNotFound"
    by (simp add: task_update_order_def demo_store_def task_ids_def board_ids_def int4_def)
  show ?thesis
    using h reorder_atomic [of demo_req
        "[ElemObj (Str ''t2'') Undefined, ElemObj (Str ''nonexistent'') Undefined]" 1
        demo_clock demo_store RecordNotFound]
    by (simp add: demo_req_def)
qed

section \<open>Elements without an id\<close>

lemma falsy_update_fails:
  "\<not> truthy w \<Longrightarrow> [] \<notin> set (task_ids s) \<Longrightarrow> \<exists>err. exec_update now s (TaskUpdate w ord b) = Inl err"
  by (cases w) (auto simp: task_update_order_def)

text \<open>
  C3. The claim: a reorder request with an element that lacks a non-empty id fails as
  invalid input, with a 4xx answer, and mutates nothing. \<open>POST /api/tasks/reorder\<close> does
  test every element and throws \<open>Invalid task data provided.\<close> for such a one, but the
  test sits inside the \<open>try\<close>, so the catch block answers 500 with the message of a
  failed transaction, whereas the handler's own test of the board id and the array,
  just above the \<open>try\<close>, answers 400. What the code does: for every such request with a
  non-empty board id the answer is 500 and the store is returned unchanged
  (\<open>PATCH /api/task/reorder\<close>, which has no test of its own, does the same on every store
  in which no task has the empty id).
\<close>

theorem reorder_missing_id_fails:
  assumes "truthy (req_boardId req)" and "req_orderedTasks req = Some es"
    and "e \<in> set es" and "\<not> truthy (elem_id e)"
  shows "reorder_post req clk s = (respond 500 (Message ''Failed to reorder tasks''), s) \<and>
         ([] \<notin> set (task_ids s) \<longrightarrow>
            reorder_patch req clk s = (respond 500 (Message ''Failed to reorder tasks''), s))"
proof
  from assms(3) have ne: "es \<noteq> []" by auto
  have "\<exists>err. updatePromises_post (req_boardId req) 0 es = Inl err"
  proof (cases "updatePromises_post (req_boardId req) 0 es")
    case (Inl err)
    then show ?thesis by blast
  next
    case (Inr us)
    from updatePromises_post_Inr [OF Inr] assms(3,4) show ?thesis by blast
  qed
  then show "reorder_post req clk s = (respond 500 (Message ''Failed to reorder tasks''), s)"
    using reorder_post_unfold [OF assms(1,2) ne] by auto
next
  show "[] \<notin> set (task_ids s) \<longrightarrow>
          reorder_patch req clk s = (respond 500 (Message ''Failed to reorder tasks''), s)"
  proof
    assume noempty: "[] \<notin> set (task_ids s)"
    from assms(3) obtain j where j: "j < length es" "es ! j = e"
      by (auto simp: in_set_conv_nth)
    from falsy_update_fails [OF assms(4) noempty] j obtain err where
      "exec_update (clk j) s (TaskUpdate (elem_id (es ! j)) (int j) (req_boardId req)) = Inl err"
      by blast
    from reorder_patch_fails [OF assms(1,2) j(1) this]
    show "reorder_patch req clk s = (respond 500 (Message ''Failed to reorder tasks''), s)" .
  qed
qed

text \<open>
  On board \<open>bA\<close> with the elements \<open>{id: t2}\<close> and \<open>{}\<close> the handler answers 500 and leaves
  the store as it was, while the same elements without a board id are answered 400.
\<close>

theorem reorder_missing_id_fails_witness:
  "truthy (req_boardId demo_req_noid) \<and>
   req_orderedTasks demo_req_noid = Some [ElemObj (Str ''t2'') Undefined, ElemObj Undefined Undefined] \<and>
   ElemObj Undefined Undefined \<in> set [ElemObj (Str ''t2'') Undefined, ElemObj Undefined Undefined] \<and>
   \<not> truthy (elem_id (ElemObj Undefined Undefined)) \<and>
   reorder_post demo_req_noid demo_clock demo_store =
     (respond 500 (Message ''Failed to reorder tasks''), demo_store) \<and>
   reorder_post (demo_req_noid\<lparr>req_boardId := Undefined\<rparr>) demo_clock demo_store =
     (respond 400 (Message ''Board ID and an array of ordered tasks are required.''), demo_store)"
proof -
  have h: "truthy (req_boardId demo_req_noid)"
    "req_orderedTasks demo_req_noid = Some [ElemObj (Str ''t2'') Undefined, ElemObj Undefined Undefined]"
    by (simp_all add: demo_req_noid_def)
  have e: "ElemObj Undefined Undefined \<in> set [ElemObj (Str ''t2'') Undefined, ElemObj Undefined Undefined]"
    "\<not> truthy (elem_id (ElemObj Undefined Undefined))"
    by simp_all
  have sib: "reorder_post (demo_req_noid\<lparr>req_boardId := Undefined\<rparr>) demo_clock demo_store =
     (respond 400 (Message ''Board ID and an array of ordered tasks are required.''), demo_store)"
    by (simp add: reorder_post_def)
  from reorder_missing_id_fails [OF h e, of demo_clock demo_store, THEN conjunct1] h e sib
  show ?thesis by blast
qed

section \<open>What a committed reorder assigns\<close>

lemma find_map_id:
  "(\<And>t. t_id (f t) = t_id t) \<Longrightarrow>
     find (\<lambda>t. t_id t = i) (map f ts) = map_option f (find (\<lambda>t. t_id t = i) ts)"
  by (induction ts) auto

lemma find_id_Some: "i \<in> t_id ` set ts \<Longrightarrow> \<exists>t. find (\<lambda>t. t_id t = i) ts = Some t \<and> t_id t = i"
  by (induction ts) auto

lemma findTask_Some: "i \<in> set (task_ids s) \<Longrightarrow> \<exists>t. findTask s i = Some t \<and> t_id t = i"
  by (simp add: findTask_def task_ids_def find_id_Some)

lemma committed_row:
  assumes tr: "transaction clk 0 s (ops_from b 0 (map elem_id es)) = Inr s'"
    and j: "j < length es"
    and last: "elem_id (es ! j) \<notin> set (drop (Suc j) (map elem_id es))"
  shows "\<exists>tid t. elem_id (es ! j) = Str tid \<and> findTask s tid = Some t \<and>
           findTask s' tid =
             Some (t\<lparr>t_order := int j, t_boardId := str_of (set_value b), t_updatedAt := clk j\<rparr>)"
proof -
  let ?ws = "map elem_id es"
  note tx = transaction_Inr [OF tr]
  from tx j obtain tid where tid: "elem_id (es ! j) = Str tid" "tid \<in> set (task_ids s)"
    by (metis length_map nth_map nth_mem)
  from findTask_Some [OF tid(2)] obtain t where t: "findTask s tid = Some t" "t_id t = tid"
    by blast
  have "findTask s' tid = map_option (final_row clk (str_of (set_value b)) 0 ?ws) (findTask s tid)"
    using tx by (simp add: findTask_def find_map_id final_row_frame)
  then have f: "findTask s' tid = Some (final_row clk (str_of (set_value b)) 0 ?ws t)" using t by simp
  have "t_order (final_row clk (str_of (set_value b)) 0 ?ws t) = int (0 + j) \<and>
      t_boardId (final_row clk (str_of (set_value b)) 0 ?ws t) = str_of (set_value b) \<and>
      t_updatedAt (final_row clk (str_of (set_value b)) 0 ?ws t) = clk (0 + j)"
    using j tid t last by (intro final_row_last) auto
  then have "final_row clk (str_of (set_value b)) 0 ?ws t =
      t\<lparr>t_order := int j, t_boardId := str_of (set_value b), t_updatedAt := clk j\<rparr>"
    using final_row_frame [of clk "str_of (set_value b)" 0 ?ws t] by (intro task.equality) auto
  with f tid t show ?thesis by auto
qed

text \<open>
  C4, as stated, fails: a reorder of board \<open>bB\<close> that lists task \<open>t1\<close> of board \<open>bA\<close>, the
  element carrying no parent reference, commits and leaves \<open>t1\<close> on board \<open>bB\<close>.
\<close>

theorem reorder_reparents_counterexample:
  "truthy (req_boardId demo_req_move) \<and>
   req_orderedTasks demo_req_move =
     Some [ElemObj (Str ''t3'') Undefined, ElemObj (Str ''t1'') Undefined] \<and>
   elem_boardId (ElemObj (Str ''t1'') Undefined) = Undefined \<and>
   status (fst (reorder_post demo_req_move demo_clock demo_store)) = 200 \<and>
   map_option t_boardId (findTask demo_store ''t1'') = Some ''bA'' \<and>
   map_option t_boardId (findTask (snd (reorder_post demo_req_move demo_clock demo_store)) ''t1'') = Some ''bB'' \<and>
   map_option t_boardId (findTask (snd (reorder_patch demo_req_move demo_clock demo_store)) ''t1'') = Some ''bB''"
  by (simp add: demo_req_move_def reorder_post_def reorder_patch_def respond_def
      task_update_order_def demo_store_def task_ids_def board_ids_def int4_def findTask_def)

text \<open>
  C4, amended. When a reorder request commits (status 200), the task named at position
  \<open>j\<close> of the array, if its id is not listed again at a later position, ends with
  order \<open>j\<close> and with the board id of the request as its board, whatever parent reference
  the element itself carries; \<open>updatedAt\<close> is the clock reading of that update and its
  other fields are unchanged. This holds for both reorder handlers.
\<close>

theorem reorder_assigns:
  assumes "truthy (req_boardId req)" and "req_orderedTasks req = Some es"
    and "j < length es"
    and "elem_id (es ! j) \<notin> set (drop (Suc j) (map elem_id es))"
  shows "(status (fst (reorder_post req clk s)) = 200 \<longrightarrow>
            (\<exists>tid t. elem_id (es ! j) = Str tid \<and> findTask s tid = Some t \<and>
               findTask (snd (reorder_post req clk s)) tid =
                 Some (t\<lparr>t_order := int j, t_boardId := str_of (set_value (req_boardId req)),
                       t_updatedAt := clk j\<rparr>))) \<and>
         (status (fst (reorder_patch req clk s)) = 200 \<longrightarrow>
            (\<exists>tid t. elem_id (es ! j) = Str tid \<and> findTask s tid = Some t \<and>
               findTask (snd (reorder_patch req clk s)) tid =
                 Some (t\<lparr>t_order := int j, t_boardId := str_of (set_value (req_boardId req)),
                       t_updatedAt := clk j\<rparr>)))"
proof (intro conjI impI)
  assume ok: "status (fst (reorder_post req clk s)) = 200"
  from assms(3) have ne: "es \<noteq> []" by auto
  from reorder_post_200 [OF assms(1,2) ne ok]
  have "transaction clk 0 s (ops_from (req_boardId req) 0 (map elem_id es)) =
          Inr (snd (reorder_post req clk s))" by simp
  from committed_row [OF this assms(3,4)]
  show "\<exists>tid t. elem_id (es ! j) = Str tid \<and> findTask s tid = Some t \<and>
          findTask (snd (reorder_post req clk s)) tid =
            Some (t\<lparr>t_order := int j, t_boardId := str_of (set_value (req_boardId req)),
                       t_updatedAt := clk j\<rparr>)" .
next
  assume ok: "status (fst (reorder_patch req clk s)) = 200"
  from committed_row [OF reorder_patch_200 [OF assms(1,2) ok] assms(3,4)]
  show "\<exists>tid t. elem_id (es ! j) = Str tid \<and> findTask s tid = Some t \<and>
          findTask (snd (reorder_patch req clk s)) tid =
            Some (t\<lparr>t_order := int j, t_boardId := str_of (set_value (req_boardId req)),
                       t_updatedAt := clk j\<rparr>)" .
qed

theorem reorder_assigns_witness:
  "truthy (req_boardId demo_req_move) \<and>
   req_orderedTasks demo_req_move =
     Some [ElemObj (Str ''t3'') Undefined, ElemObj (Str ''t1'') Undefined] \<and>
   (1::nat) < length [ElemObj (Str ''t3'') Undefined, ElemObj (Str ''t1'') Undefined] \<and>
   status (fst (reorder_post demo_req_move demo_clock demo_store)) = 200 \<and>
   status (fst (reorder_patch demo_req_move demo_clock demo_store)) = 200 \<and>
   (\<exists>tid t. Str ''t1'' = Str tid \<and> findTask demo_store tid = Some t \<and>
      findTask (snd (reorder_post demo_req_move demo_clock demo_store)) tid =
        Some (t\<lparr>t_order := 1, t_boardId := ''bB'', t_updatedAt := 101\<rparr>)) \<and>
   (\<exists>tid t. Str ''t1'' = Str tid \<and> findTask demo_store tid = Some t \<and>
      findTask (snd (reorder_patch demo_req_move demo_clock demo_store)) tid =
        Some (t\<lparr>t_order := 1, t_boardId := ''bB'', t_updatedAt := 101\<rparr>))"
proof -
  have a: "status (fst (reorder_post demo_req_move demo_clock demo_store)) = 200"
    by (simp add: demo_req_move_def reorder_post_def respond_def
        task_update_order_def demo_store_def task_ids_def board_ids_def int4_def)
  have b: "status (fst (reorder_patch demo_req_move demo_clock demo_store)) = 200"
    by (simp add: demo_req_move_def reorder_patch_def respond_def
        task_update_order_def demo_store_def task_ids_def board_ids_def int4_def)
  have c: "req_orderedTasks demo_req_move =
     Some [ElemObj (Str ''t3'') Undefined, ElemObj (Str ''t1'') Undefined]"
    "truthy (req_boardId demo_req_move)" "str_of (set_value (req_boardId demo_req_move)) = ''bB''"
    "demo_clock 1 = 101"
    by (simp_all add: demo_req_move_def demo_clock_def)
  show ?thesis
    using a b c reorder_assigns [of demo_req_move
        "[ElemObj (Str ''t3'') Undefined, ElemObj (Str ''t1'') Undefined]" 1 demo_clock demo_store]
    by simp
qed

section \<open>Reorder by a permutation of the siblings\<close>

lemma reorder_post_200_tx:
  assumes "truthy (req_boardId req)" and "req_orderedTasks req = Some es"
    and "status (fst (reorder_post req clk s)) = 200"
  shows "transaction clk 0 s (ops_from (req_boardId req) 0 (map elem_id es)) =
           Inr (snd (reorder_post req clk s))"
proof (cases "es = []")
  case True
  then show ?thesis using assms by (simp add: reorder_post_def)
next
  case False
  from reorder_post_200 [OF assms(1,2) False assms(3)] show ?thesis by simp
qed

lemma distinct_nth_not_later: "distinct xs \<Longrightarrow> i < length xs \<Longrightarrow> xs ! i \<notin> set (drop (Suc i) xs)"
  by (auto simp: in_set_conv_nth distinct_conv_nth)

lemma final_row_distinct:
  assumes "distinct tids" and "i < length tids" and "t_id t = tids ! i"
  shows "t_order (final_row clk b 0 (map Str tids) t) = int i \<and>
         t_boardId (final_row clk b 0 (map Str tids) t) = b"
proof -
  have d: "distinct (map Str tids)" using assms(1) by (simp add: distinct_map inj_on_def)
  have "t_order (final_row clk b 0 (map Str tids) t) = int (0 + i) \<and>
        t_boardId (final_row clk b 0 (map Str tids) t) = b \<and>
        t_updatedAt (final_row clk b 0 (map Str tids) t) = clk (0 + i)"
    using assms(2,3) distinct_nth_not_later [OF d, of i] by (intro final_row_last) auto
  then show ?thesis by simp
qed

lemma final_row_not_listed: "t_id t \<notin> set tids \<Longrightarrow> final_row clk b i (map Str tids) t = t"
  by (rule final_row_untouched) auto

text \<open>The query always has a result: the rows of the board, sorted.\<close>

lemma task_findMany_asc_sort:
  "task_findMany_asc s b (sort_key t_order (filter (\<lambda>t. t_boardId t = b) (tasks s)))"
  by (simp add: task_findMany_asc_def)

lemma sort_by_position:
  assumes d: "distinct tids"
    and dx: "distinct (map t_id X)"
    and sx: "set (map t_id X) = set tids"
    and ord: "\<forall>x \<in> set X. \<forall>j < length tids. t_id x = tids ! j \<longrightarrow> t_order x = int j"
    and perm: "mset R = mset X"
    and so: "sorted (map t_order R)"
  shows "map t_id R = tids"
proof -
  have setR: "set R = set X" using perm by (rule mset_eq_setD)
  have lenR: "length R = length X" using perm by (rule mset_eq_length)
  have dR: "distinct R = distinct X" using perm by (rule mset_eq_imp_distinct_iff)
  let ?K = "length tids"
  have len: "length X = ?K"
    using d dx sx by (metis distinct_card length_map)
  have pos: "\<exists>j < ?K. t_id x = tids ! j \<and> t_order x = int j" if "x \<in> set X" for x
  proof -
    from that sx have "t_id x \<in> set tids" by auto
    then obtain j where "j < ?K" "tids ! j = t_id x" by (auto simp: in_set_conv_nth)
    with ord that show ?thesis by auto
  qed
  have inj: "inj_on t_order (set X)"
  proof (rule inj_onI)
    fix x y assume xy: "x \<in> set X" "y \<in> set X" "t_order x = t_order y"
    from pos [OF xy(1)] pos [OF xy(2)] xy(3) have "t_id x = t_id y" by auto
    with dx xy show "x = y" by (auto simp: distinct_map inj_on_def)
  qed
  have dord: "distinct (map t_order R)"
    using dx inj dR setR by (simp add: distinct_map)
  have "set (map t_order R) = int ` {0..<?K}"
  proof
    show "set (map t_order R) \<subseteq> int ` {0..<?K}"
    proof
      fix v assume "v \<in> set (map t_order R)"
      then obtain x where x: "x \<in> set X" "v = t_order x" using setR by auto
      from pos [OF x(1)] obtain j where "j < ?K" "t_order x = int j" by blast
      with x show "v \<in> int ` {0..<?K}" by simp
    qed
    show "int ` {0..<?K} \<subseteq> set (map t_order R)"
    proof
      fix v assume "v \<in> int ` {0..<?K}"
      then obtain j where j: "j < ?K" "v = int j" by auto
      then have "tids ! j \<in> set (map t_id X)" using sx by simp
      then obtain x where x: "x \<in> set X" "t_id x = tids ! j" by auto
      with ord j have "t_order x = v" by auto
      with x show "v \<in> set (map t_order R)" using setR by force
    qed
  qed
  then have "set (map t_order R) = set (map int [0..<?K])" by simp
  moreover have "sorted (map int [0..<?K])" by (simp add: sorted_map sorted_wrt_iff_nth_less)
  moreover have "distinct (map int [0..<?K])" by (simp add: distinct_map)
  ultimately have ords: "map t_order R = map int [0..<?K]"
    using so dord by (intro sorted_distinct_set_unique) auto
  show ?thesis
  proof (rule nth_equalityI)
    show "length (map t_id R) = ?K" using len lenR by simp
  next
    fix j assume "j < length (map t_id R)"
    then have j: "j < ?K" using len lenR by simp
    then have jr: "j < length R" using len lenR by simp
    have "t_order (R ! j) = map t_order R ! j" using jr by simp
    also have "\<dots> = int j" using ords j by simp
    finally have oj: "t_order (R ! j) = int j" .
    have "R ! j \<in> set X" using jr setR by (metis nth_mem)
    from pos [OF this] obtain i where "i < ?K" "t_id (R ! j) = tids ! i" "t_order (R ! j) = int i"
      by blast
    with oj show "map t_id R ! j = tids ! j" using jr by simp
  qed
qed



lemma committed_permutation:
  assumes tr: "transaction clk 0 s (ops_from bv 0 (map Str tids)) = Inr s'"
    and pk: "distinct (task_ids s)"
    and d: "distinct tids"
    and sib: "set tids = set (map t_id (filter (\<lambda>t. t_boardId t = str_of (set_value bv)) (tasks s)))"
    and res: "task_findMany_asc s' (str_of (set_value bv)) rows"
  shows "map t_id rows = tids"
proof -
  let ?b = "str_of (set_value bv)"
  let ?F = "final_row clk ?b 0 (map Str tids)"
  let ?sibs = "filter (\<lambda>t. t_boardId t = ?b) (tasks s)"
  from transaction_Inr [OF tr] have ts: "tasks s' = map ?F (tasks s)" by simp
  have inj: "inj_on t_id (set (tasks s))"
    using pk by (simp add: task_ids_def distinct_map)
  have same: "(t_boardId (?F t) = ?b) = (t_boardId t = ?b)" if t: "t \<in> set (tasks s)" for t
  proof (cases "t_id t \<in> set tids")
    case True
    then obtain i where i: "i < length tids" "t_id t = tids ! i"
      by (auto simp: in_set_conv_nth)
    from True sib obtain t' where t': "t' \<in> set (tasks s)" "t_boardId t' = ?b" "t_id t' = t_id t"
      by auto
    with inj t have "t' = t" by (auto simp: inj_on_def)
    with t' final_row_distinct [OF d i] show ?thesis by simp
  next
    case False
    with sib t have "t_boardId t \<noteq> ?b" by auto
    with False show ?thesis by (simp add: final_row_not_listed)
  qed
  have "filter (\<lambda>t. t_boardId t = ?b) (tasks s') =
      map ?F (filter ((\<lambda>t. t_boardId t = ?b) \<circ> ?F) (tasks s))"
    by (simp add: ts filter_map)
  also have "filter ((\<lambda>t. t_boardId t = ?b) \<circ> ?F) (tasks s) = ?sibs"
    by (rule filter_cong) (auto simp: same)
  finally have X: "filter (\<lambda>t. t_boardId t = ?b) (tasks s') = map ?F ?sibs" .
  have idF: "map t_id (map ?F ?sibs) = map t_id ?sibs"
    by (simp add: final_row_frame)
  have dx: "distinct (map t_id (map ?F ?sibs))"
    unfolding idF using pk by (simp add: task_ids_def distinct_map_filter)
  have sx: "set (map t_id (map ?F ?sibs)) = set tids"
    unfolding idF using sib by simp
  have ord: "\<forall>x \<in> set (map ?F ?sibs). \<forall>j < length tids. t_id x = tids ! j \<longrightarrow> t_order x = int j"
  proof (intro ballI allI impI)
    fix x j assume x: "x \<in> set (map ?F ?sibs)" and j: "j < length tids" and e: "t_id x = tids ! j"
    from x obtain t where t: "x = ?F t" by auto
    with e have "t_id t = tids ! j" by (simp add: final_row_frame)
    from final_row_distinct [OF d j this] t show "t_order x = int j" by simp
  qed
  from res have perm: "mset rows = mset (map ?F ?sibs)" and so: "sorted (map t_order rows)"
    by (simp_all add: task_findMany_asc_def X)
  from sort_by_position [OF d dx sx ord perm so] show ?thesis .
qed

text \<open>
  C2. Let the task ids be unique in the store (the primary key), and let a reorder
  request with a non-empty board id list, as objects with string ids, a permutation of
  the ids of the tasks now on that board. If either reorder handler commits the request
  (status 200), then in the store it returns each listed task has as order its 0-based
  position in the submitted list, and \<open>GET /api/boards/:boardId/tasks\<close> has an answer,
  and every answer it can give is a 200 with the tasks of the board sorted by order
  ascending, whose ids are exactly the submitted list.
\<close>

theorem reorder_permutation:
  assumes "distinct (task_ids s)"
    and "truthy (req_boardId req)" and "req_orderedTasks req = Some es"
    and "map elem_id es = map Str tids" and "distinct tids"
    and "set tids = set (map t_id (filter (\<lambda>t. t_boardId t = str_of (set_value (req_boardId req))) (tasks s)))"
    and "(r, s') = reorder_post req clk s \<or> (r, s') = reorder_patch req clk s"
    and "status r = 200"
  shows "(\<forall>j < length tids. \<exists>t. findTask s' (tids ! j) = Some t \<and> t_order t = int j) \<and>
         (\<exists>rows. get_tasks (str_of (set_value (req_boardId req))) s' (respond 200 (TasksJson rows))) \<and>
         (\<forall>rows. task_findMany_asc s' (str_of (set_value (req_boardId req))) rows \<longrightarrow> map t_id rows = tids) \<and>
         (\<forall>g. get_tasks (str_of (set_value (req_boardId req))) s' g \<longrightarrow>
            status g = 200 \<and> (\<exists>rows. body g = TasksJson rows \<and> map t_id rows = tids))"
proof -
  let ?b = "str_of (set_value (req_boardId req))"
  have tr: "transaction clk 0 s (ops_from (req_boardId req) 0 (map elem_id es)) = Inr s'"
    using assms(7)
  proof
    assume p: "(r, s') = reorder_post req clk s"
    then have "status (fst (reorder_post req clk s)) = 200" "snd (reorder_post req clk s) = s'"
      using assms(8) by (metis fst_conv, metis snd_conv)
    with reorder_post_200_tx [OF assms(2,3)] show ?thesis by simp
  next
    assume p: "(r, s') = reorder_patch req clk s"
    then have "status (fst (reorder_patch req clk s)) = 200" "snd (reorder_patch req clk s) = s'"
      using assms(8) by (metis fst_conv, metis snd_conv)
    with reorder_patch_200 [OF assms(2,3)] show ?thesis by simp
  qed
  have len: "length es = length tids" using assms(4) by (metis length_map)
  have dws: "distinct (map elem_id es)"
    unfolding assms(4) using assms(5) by (simp add: distinct_map inj_on_def)
  have rows: "\<forall>j < length tids. \<exists>t. findTask s' (tids ! j) = Some t \<and> t_order t = int j"
  proof (intro allI impI)
    fix j assume j: "j < length tids"
    then have je: "j < length es" using len by simp
    have "elem_id (es ! j) = Str (tids ! j)"
      using assms(4) j je by (metis nth_map)
    moreover have "elem_id (es ! j) \<notin> set (drop (Suc j) (map elem_id es))"
      using distinct_nth_not_later [OF dws, of j] je by simp
    from committed_row [OF tr je this]
    obtain tid t where "elem_id (es ! j) = Str tid"
      "findTask s' tid = Some (t\<lparr>t_order := int j, t_boardId := ?b, t_updatedAt := clk j\<rparr>)"
      by blast
    ultimately show "\<exists>t. findTask s' (tids ! j) = Some t \<and> t_order t = int j" by auto
  qed
  from tr have tr': "transaction clk 0 s (ops_from (req_boardId req) 0 (map Str tids)) = Inr s'"
    by (simp add: assms(4))
  have all: "\<forall>rows. task_findMany_asc s' ?b rows \<longrightarrow> map t_id rows = tids"
    using committed_permutation [OF tr' assms(1,5,6)] by blast
  have ex: "\<exists>rows. get_tasks ?b s' (respond 200 (TasksJson rows))"
    using task_findMany_asc_sort [of s' ?b] by (auto simp: get_tasks_def respond_def)
  have gets: "\<forall>g. get_tasks ?b s' g \<longrightarrow>
      status g = 200 \<and> (\<exists>rows. body g = TasksJson rows \<and> map t_id rows = tids)"
  proof (intro allI impI)
    fix g assume g: "get_tasks ?b s' g"
    then obtain rws where "body g = TasksJson rws" "status g = 200" "task_findMany_asc s' ?b rws"
      by (cases "body g") (simp_all add: get_tasks_def)
    with all show "status g = 200 \<and> (\<exists>rows. body g = TasksJson rows \<and> map t_id rows = tids)"
      by blast
  qed
  from rows ex all gets show ?thesis by blast
qed

theorem reorder_permutation_witness:
  "distinct (task_ids demo_store) \<and>
   truthy (req_boardId demo_req_perm) \<and>
   req_orderedTasks demo_req_perm = Some [ElemObj (Str ''t2'') Undefined, ElemObj (Str ''t1'') (Str ''bA'')] \<and>
   distinct [''t2'', ''t1''] \<and>
   set [''t2'', ''t1''] = set (map t_id (filter (\<lambda>t. t_boardId t = ''bA'') (tasks demo_store))) \<and>
   status (fst (reorder_post demo_req_perm demo_clock demo_store)) = 200 \<and>
   (\<exists>t. findTask (snd (reorder_post demo_req_perm demo_clock demo_store)) ''t2'' = Some t \<and>
      t_order t = 0) \<and>
   (\<exists>t. findTask (snd (reorder_post demo_req_perm demo_clock demo_store)) ''t1'' = Some t \<and>
      t_order t = 1) \<and>
   task_findMany_asc (snd (reorder_post demo_req_perm demo_clock demo_store)) ''bA''
     (sort_key t_order (filter (\<lambda>t. t_boardId t = ''bA'')
        (tasks (snd (reorder_post demo_req_perm demo_clock demo_store))))) \<and>
   map t_id (sort_key t_order (filter (\<lambda>t. t_boardId t = ''bA'')
     (tasks (snd (reorder_post demo_req_perm demo_clock demo_store))))) = [''t2'', ''t1'']"
proof -
  let ?s' = "snd (reorder_post demo_req_perm demo_clock demo_store)"
  let ?es = "[ElemObj (Str ''t2'') Undefined, ElemObj (Str ''t1'') (Str ''bA'')]"
  have h1: "distinct (task_ids demo_store)"
    by (simp add: demo_store_def task_ids_def)
  have h2: "truthy (req_boardId demo_req_perm)"
    and bstr: "str_of (set_value (req_boardId demo_req_perm)) = ''bA''"
    and h3: "req_orderedTasks demo_req_perm = Some ?es"
    by (simp_all add: demo_req_perm_def)
  have h4: "map elem_id ?es = map Str [''t2'', ''t1'']" by simp
  have h5: "distinct [''t2'', ''t1'']" by simp
  have c: "set [''t2'', ''t1''] = set (map t_id (filter (\<lambda>t. t_boardId t = ''bA'') (tasks demo_store)))"
    by (auto simp: demo_store_def)
  have h6: "set [''t2'', ''t1''] =
      set (map t_id (filter (\<lambda>t. t_boardId t = str_of (set_value (req_boardId demo_req_perm))) (tasks demo_store)))"
    unfolding bstr by (rule c)
  have h7: "(fst (reorder_post demo_req_perm demo_clock demo_store), ?s') =
        reorder_post demo_req_perm demo_clock demo_store \<or>
      (fst (reorder_post demo_req_perm demo_clock demo_store), ?s') =
        reorder_patch demo_req_perm demo_clock demo_store"
    by (rule disjI1) (rule prod.collapse)
  have h8: "status (fst (reorder_post demo_req_perm demo_clock demo_store)) = 200"
    by (simp add: demo_req_perm_def reorder_post_def respond_def
        task_update_order_def demo_store_def task_ids_def board_ids_def int4_def)
  note th = reorder_permutation [OF h1 h2 h3 h4 h5 h6 h7 h8, unfolded bstr]
  have f0: "\<exists>t. findTask ?s' ''t2'' = Some t \<and> t_order t = 0"
    using th [THEN conjunct1, rule_format, of 0] by simp
  have f1: "\<exists>t. findTask ?s' ''t1'' = Some t \<and> t_order t = 1"
    using th [THEN conjunct1, rule_format, of 1] by simp
  note g = task_findMany_asc_sort [of ?s' "''bA''"]
  from th [THEN conjunct2, THEN conjunct2, THEN conjunct1, rule_format, OF g]
  have h: "map t_id (sort_key t_order (filter (\<lambda>t. t_boardId t = ''bA'') (tasks ?s'))) = [''t2'', ''t1'']" .
  from h1 h2 h3 h5 c h8 f0 f1 g h show ?thesis by blast
qed

section \<open>The order given to a new board or task\<close>

lemma sort_key_head_least:
  assumes "sort_key f xs = y # ys"
  shows "y \<in> set xs \<and> (\<forall>x \<in> set xs. f y \<le> f x)"
proof -
  have "set (y # ys) = set xs" using assms by (metis set_sort)
  moreover have "sorted (map f (y # ys))" using assms by (metis sorted_sort_key)
  ultimately show ?thesis by auto
qed

lemma max_order_next:
  fixes f :: "'a \<Rightarrow> int"
  assumes "sort_key (\<lambda>x. - f x) xs = y # ys"
  shows "f y = Max (f ` set xs)"
proof -
  from sort_key_head_least [OF assms] have "y \<in> set xs" "\<forall>x \<in> set xs. f x \<le> f y" by auto
  then show ?thesis by (intro Max_eqI [symmetric]) auto
qed

lemma sort_key_Nil_iff: "(sort_key f xs = []) = (xs = [])"
  by (metis length_sort length_0_conv)

lemma board_newOrder:
  "(case board_findFirst_desc s p of Some l \<Rightarrow> b_order l + 1 | None \<Rightarrow> 0) =
     (if filter (\<lambda>b. b_projectId b = p) (boards s) = [] then 0
      else Max (b_order ` set (filter (\<lambda>b. b_projectId b = p) (boards s))) + 1)"
proof (cases "sort_key (\<lambda>b. - b_order b) (filter (\<lambda>b. b_projectId b = p) (boards s))")
  case Nil
  then show ?thesis by (simp add: board_findFirst_desc_def sort_key_Nil_iff)
next
  case (Cons y ys)
  then have "filter (\<lambda>b. b_projectId b = p) (boards s) \<noteq> []"
    using sort_key_Nil_iff [of "\<lambda>b. - b_order b" "filter (\<lambda>b. b_projectId b = p) (boards s)"]  by simp
  with max_order_next [OF Cons] Cons show ?thesis by (simp add: board_findFirst_desc_def)
qed

lemma task_newOrder:
  "(case task_findFirst_desc s p of Some l \<Rightarrow> t_order l + 1 | None \<Rightarrow> 0) =
     (if filter (\<lambda>t. t_boardId t = p) (tasks s) = [] then 0
      else Max (t_order ` set (filter (\<lambda>t. t_boardId t = p) (tasks s))) + 1)"
proof (cases "sort_key (\<lambda>t. - t_order t) (filter (\<lambda>t. t_boardId t = p) (tasks s))")
  case Nil
  then show ?thesis by (simp add: task_findFirst_desc_def sort_key_Nil_iff)
next
  case (Cons y ys)
  then have "filter (\<lambda>t. t_boardId t = p) (tasks s) \<noteq> []"
    using sort_key_Nil_iff [of "\<lambda>t. - t_order t" "filter (\<lambda>t. t_boardId t = p) (tasks s)"]  by simp
  with max_order_next [OF Cons] Cons show ?thesis by (simp add: task_findFirst_desc_def)
qed

lemma post_boards_201:
  assumes "post_boards p name new_id s = (r, s')" and "status r = 201"
  shows "\<exists>nb. boards s' = boards s @ [nb] \<and> projects s' = projects s \<and> tasks s' = tasks s \<and>
           body r = BoardJson nb \<and> b_id nb = new_id \<and> b_name nb = str_of name \<and>
           b_projectId nb = p \<and>
           b_order nb =
             (if filter (\<lambda>b. b_projectId b = p) (boards s) = [] then 0
              else Max (b_order ` set (filter (\<lambda>b. b_projectId b = p) (boards s))) + 1)"
  using assms board_newOrder [of s p]
  by (auto simp: post_boards_def Let_def respond_def board_create_def split: if_splits sum.splits)

lemma post_tasks_201:
  assumes "post_tasks p title description new_id ca ua s = (r, s')" and "status r = 201"
  shows "\<exists>nt. tasks s' = tasks s @ [nt] \<and> projects s' = projects s \<and> boards s' = boards s \<and>
           body r = TaskJson nt \<and> t_id nt = new_id \<and> t_title nt = str_of title \<and>
           t_boardId nt = p \<and> t_createdAt nt = ca \<and> t_updatedAt nt = ua \<and>
           t_order nt =
             (if filter (\<lambda>t. t_boardId t = p) (tasks s) = [] then 0
              else Max (t_order ` set (filter (\<lambda>t. t_boardId t = p) (tasks s))) + 1)"
  using assms task_newOrder [of s p]
  by (auto simp: post_tasks_def Let_def respond_def task_create_def split: if_splits sum.splits)

lemma post_boards_rt_store:
  "post_boards_rt p name new_id reg s = (r, s', ds) \<Longrightarrow> post_boards p name new_id s = (r, s')"
  by (auto simp: post_boards_rt_def post_boards_def Let_def split: if_splits sum.splits)


text \<open>
  C5. When \<open>POST /api/projects/:projectId/boards\<close> creates a board (status 201), the new
  row is appended to the boards, is the body of the response, and its order is 0 if the
  project had no board in the store the handler read, and otherwise one more than the
  largest order among the project's boards. The same holds for
  \<open>POST /api/boards/:boardId/tasks\<close> and the tasks of the board.
\<close>

theorem create_assigns_next_order:
  "(post_boards p name new_id s = (r, s') \<and> status r = 201 \<longrightarrow>
      (\<exists>nb. boards s' = boards s @ [nb] \<and> body r = BoardJson nb \<and> b_id nb = new_id \<and>
         b_projectId nb = p \<and>
         b_order nb =
           (if filter (\<lambda>b. b_projectId b = p) (boards s) = [] then 0
            else Max (b_order ` set (filter (\<lambda>b. b_projectId b = p) (boards s))) + 1))) \<and>
   (post_tasks bid title description new_tid ca ua s = (r2, s2) \<and> status r2 = 201 \<longrightarrow>
      (\<exists>nt. tasks s2 = tasks s @ [nt] \<and> body r2 = TaskJson nt \<and> t_id nt = new_tid \<and>
         t_boardId nt = bid \<and>
         t_order nt =
           (if filter (\<lambda>t. t_boardId t = bid) (tasks s) = [] then 0
            else Max (t_order ` set (filter (\<lambda>t. t_boardId t = bid) (tasks s))) + 1)))"
proof (intro conjI impI)
  assume a: "post_boards p name new_id s = (r, s') \<and> status r = 201"
  then obtain nb where "boards s' = boards s @ [nb]" "body r = BoardJson nb" "b_id nb = new_id"
    "b_projectId nb = p"
    "b_order nb =
       (if filter (\<lambda>b. b_projectId b = p) (boards s) = [] then 0
        else Max (b_order ` set (filter (\<lambda>b. b_projectId b = p) (boards s))) + 1)"
    using post_boards_201 [of p name new_id s r s'] by blast
  then show "\<exists>nb. boards s' = boards s @ [nb] \<and> body r = BoardJson nb \<and> b_id nb = new_id \<and>
         b_projectId nb = p \<and>
         b_order nb =
           (if filter (\<lambda>b. b_projectId b = p) (boards s) = [] then 0
            else Max (b_order ` set (filter (\<lambda>b. b_projectId b = p) (boards s))) + 1)"
    by blast
next
  assume a: "post_tasks bid title description new_tid ca ua s = (r2, s2) \<and> status r2 = 201"
  then obtain nt where "tasks s2 = tasks s @ [nt]" "body r2 = TaskJson nt" "t_id nt = new_tid"
    "t_boardId nt = bid"
    "t_order nt =
       (if filter (\<lambda>t. t_boardId t = bid) (tasks s) = [] then 0
        else Max (t_order ` set (filter (\<lambda>t. t_boardId t = bid) (tasks s))) + 1)"
    using post_tasks_201 [of bid title description new_tid ca ua s r2 s2] by blast
  then show "\<exists>nt. tasks s2 = tasks s @ [nt] \<and> body r2 = TaskJson nt \<and> t_id nt = new_tid \<and>
         t_boardId nt = bid \<and>
         t_order nt =
           (if filter (\<lambda>t. t_boardId t = bid) (tasks s) = [] then 0
            else Max (t_order ` set (filter (\<lambda>t. t_boardId t = bid) (tasks s))) + 1)"
    by blast
qed

theorem create_assigns_next_order_witness:
  "status (fst (post_boards ''pX'' (Str ''later'') ''bN'' demo_store)) = 201 \<and>
   status (fst (post_tasks ''bC'' (Str ''plan'') Undefined ''tN'' 40 41 demo_store)) = 201 \<and>
   (\<exists>nb. boards (snd (post_boards ''pX'' (Str ''later'') ''bN'' demo_store)) =
            boards demo_store @ [nb] \<and> b_id nb = ''bN'' \<and> b_order nb = 2) \<and>
   (\<exists>nt. tasks (snd (post_tasks ''bC'' (Str ''plan'') Undefined ''tN'' 40 41 demo_store)) =
            tasks demo_store @ [nt] \<and> t_id nt = ''tN'' \<and> t_order nt = 0)"
proof -
  have a: "status (fst (post_boards ''pX'' (Str ''later'') ''bN'' demo_store)) = 201"
    by (simp add: post_boards_def board_findFirst_desc_def board_create_def respond_def
        demo_store_def board_ids_def project_ids_def int4_def Let_def)
  have b: "status (fst (post_tasks ''bC'' (Str ''plan'') Undefined ''tN'' 40 41 demo_store)) = 201"
    by (simp add: post_tasks_def task_findFirst_desc_def task_create_def respond_def
        demo_store_def board_ids_def task_ids_def int4_def Let_def)
  have c: "filter (\<lambda>b. b_projectId b = ''pX'') (boards demo_store) =
      [\<lparr>b_id = ''bA'', b_name = ''todo'', b_order = 0, b_projectId = ''pX''\<rparr>,
       \<lparr>b_id = ''bB'', b_name = ''done'', b_order = 1, b_projectId = ''pX''\<rparr>]"
    "filter (\<lambda>t. t_boardId t = ''bC'') (tasks demo_store) = []"
    by (simp_all add: demo_store_def)
  show ?thesis
    using a b create_assigns_next_order [of "''pX''" "Str ''later''" "''bN''" demo_store
        "fst (post_boards ''pX'' (Str ''later'') ''bN'' demo_store)"
        "snd (post_boards ''pX'' (Str ''later'') ''bN'' demo_store)"
        "''bC''" "Str ''plan''" Undefined "''tN''" 40 41
        "fst (post_tasks ''bC'' (Str ''plan'') Undefined ''tN'' 40 41 demo_store)"
        "snd (post_tasks ''bC'' (Str ''plan'') Undefined ''tN'' 40 41 demo_store)"]
    by (simp add: c) blast
qed

section \<open>Creates issued serially\<close>

lemma next_after_dense:
  fixes f :: "'a \<Rightarrow> int"
  assumes "map f xs = map int [0..<k]"
  shows "(if xs = [] then 0 else Max (f ` set xs) + 1) = int k"
proof (cases k)
  case 0
  with assms show ?thesis by simp
next
  case (Suc m)
  have len: "length xs = k" using assms by (metis length_map length_upt minus_nat.diff_0)
  then have ne: "xs \<noteq> []" using Suc by auto
  have "f ` set xs = set (map f xs)" by simp
  also have "\<dots> = int ` {0..<k}" using assms by simp
  finally have img: "f ` set xs = int ` {0..<k}" .
  have "Max (int ` {0..<k}) = int m"
    using Suc by (intro Max_eqI) auto
  with img ne Suc show ?thesis by simp
qed

lemma create_boards_serial_dense:
  "create_boards_serial p reqs reg s = (rs, s') \<Longrightarrow> \<forall>r \<in> set rs. status r = 201 \<Longrightarrow>
     map b_order (filter (\<lambda>b. b_projectId b = p) (boards s)) = map int [0..<k] \<Longrightarrow>
     map b_order (filter (\<lambda>b. b_projectId b = p) (boards s')) = map int [0..<k + length reqs]"
proof (induction reqs arbitrary: s rs k)
  case Nil
  then show ?case by simp
next
  case (Cons q reqs)
  obtain name new_id where q: "q = (name, new_id)" by (cases q)
  obtain r s1 ds where one: "post_boards_rt p name new_id reg s = (r, s1, ds)"
    by (cases "post_boards_rt p name new_id reg s")
  obtain rs' s2 where rest: "create_boards_serial p reqs reg s1 = (rs', s2)"
    by (cases "create_boards_serial p reqs reg s1")
  from Cons.prems(1) q one rest have eq: "rs = r # rs'" "s' = s2" by auto
  with Cons.prems(2) have ok: "status r = 201" "\<forall>r \<in> set rs'. status r = 201" by auto
  from post_boards_201 [OF post_boards_rt_store [OF one] ok(1)]
  obtain nb where nb: "boards s1 = boards s @ [nb]" "b_projectId nb = p"
    "b_order nb =
       (if filter (\<lambda>b. b_projectId b = p) (boards s) = [] then 0
        else Max (b_order ` set (filter (\<lambda>b. b_projectId b = p) (boards s))) + 1)"
    by blast
  from next_after_dense [OF Cons.prems(3)] nb(3) have "b_order nb = int k" by simp
  with nb Cons.prems(3)
  have "map b_order (filter (\<lambda>b. b_projectId b = p) (boards s1)) = map int [0..<Suc k]"
    by simp
  from Cons.IH [OF rest [unfolded eq(2) [symmetric]] ok(2) this] show ?case by simp
qed

lemma create_tasks_serial_dense:
  "create_tasks_serial p reqs s = (rs, s') \<Longrightarrow> \<forall>r \<in> set rs. status r = 201 \<Longrightarrow>
     map t_order (filter (\<lambda>t. t_boardId t = p) (tasks s)) = map int [0..<k] \<Longrightarrow>
     map t_order (filter (\<lambda>t. t_boardId t = p) (tasks s')) = map int [0..<k + length reqs]"
proof (induction reqs arbitrary: s rs k)
  case Nil
  then show ?case by simp
next
  case (Cons q reqs)
  obtain title description new_id ca ua where q: "q = (title, description, new_id, ca, ua)"
    by (cases q)
  obtain r s1 where one: "post_tasks p title description new_id ca ua s = (r, s1)"
    by (cases "post_tasks p title description new_id ca ua s")
  obtain rs' s2 where rest: "create_tasks_serial p reqs s1 = (rs', s2)"
    by (cases "create_tasks_serial p reqs s1")
  from Cons.prems(1) q one rest have eq: "rs = r # rs'" "s' = s2" by auto
  with Cons.prems(2) have ok: "status r = 201" "\<forall>r \<in> set rs'. status r = 201" by auto
  from post_tasks_201 [OF one ok(1)]
  obtain nt where nt: "tasks s1 = tasks s @ [nt]" "t_boardId nt = p"
    "t_order nt =
       (if filter (\<lambda>t. t_boardId t = p) (tasks s) = [] then 0
        else Max (t_order ` set (filter (\<lambda>t. t_boardId t = p) (tasks s))) + 1)"
    by blast
  from next_after_dense [OF Cons.prems(3)] nt(3) have "t_order nt = int k" by simp
  with nt Cons.prems(3)
  have "map t_order (filter (\<lambda>t. t_boardId t = p) (tasks s1)) = map int [0..<Suc k]"
    by simp
  from Cons.IH [OF rest [unfolded eq(2) [symmetric]] ok(2) this] show ?case by simp
qed

lemma create_boards_serial_length: "create_boards_serial p reqs reg s = (rs, s') \<Longrightarrow> length rs = length reqs"
  by (induction reqs arbitrary: s rs) (auto split: prod.splits)

lemma create_tasks_serial_length: "create_tasks_serial p reqs s = (rs, s') \<Longrightarrow> length rs = length reqs"
  by (induction reqs arbitrary: s rs) (auto split: prod.splits)

text \<open>
  C6. Start from a store in which a project has no board, and run \<open>N\<close> board creates
  under it one after another. If every one of them is answered 201, the orders of the
  project's boards, in the order of creation, are \<open>0, 1, \<dots>, N - 1\<close>: as a set they are
  \<open>{0, \<dots>, N - 1}\<close>, and no two are equal. The same holds for \<open>N\<close> task creates under a
  board that has no task.
\<close>

theorem serial_creates_dense:
  "(filter (\<lambda>b. b_projectId b = p) (boards s) = [] \<and>
    create_boards_serial p breqs reg s = (rs, s') \<and> (\<forall>r \<in> set rs. status r = 201) \<longrightarrow>
      length rs = length breqs \<and>
      map b_order (filter (\<lambda>b. b_projectId b = p) (boards s')) = map int [0..<length breqs] \<and>
      b_order ` set (filter (\<lambda>b. b_projectId b = p) (boards s')) = int ` {0..<length breqs} \<and>
      distinct (map b_order (filter (\<lambda>b. b_projectId b = p) (boards s')))) \<and>
   (filter (\<lambda>t. t_boardId t = bid) (tasks s) = [] \<and>
    create_tasks_serial bid treqs s = (rs2, s2) \<and> (\<forall>r \<in> set rs2. status r = 201) \<longrightarrow>
      length rs2 = length treqs \<and>
      map t_order (filter (\<lambda>t. t_boardId t = bid) (tasks s2)) = map int [0..<length treqs] \<and>
      t_order ` set (filter (\<lambda>t. t_boardId t = bid) (tasks s2)) = int ` {0..<length treqs} \<and>
      distinct (map t_order (filter (\<lambda>t. t_boardId t = bid) (tasks s2))))"
proof (intro conjI impI)
  assume a: "filter (\<lambda>b. b_projectId b = p) (boards s) = [] \<and>
    create_boards_serial p breqs reg s = (rs, s') \<and> (\<forall>r \<in> set rs. status r = 201)"
  then have m: "map b_order (filter (\<lambda>b. b_projectId b = p) (boards s')) = map int [0..<length breqs]"
    using create_boards_serial_dense [of p breqs reg s rs s' 0] by simp
  show "length rs = length breqs" using a create_boards_serial_length by blast
  show "map b_order (filter (\<lambda>b. b_projectId b = p) (boards s')) = map int [0..<length breqs]"
    by (rule m)
  have "set (map b_order (filter (\<lambda>b. b_projectId b = p) (boards s'))) = int ` {0..<length breqs}"
    unfolding m by simp
  then show "b_order ` set (filter (\<lambda>b. b_projectId b = p) (boards s')) = int ` {0..<length breqs}"
    by simp
  show "distinct (map b_order (filter (\<lambda>b. b_projectId b = p) (boards s')))"
    unfolding m by (simp add: distinct_map)
next
  assume a: "filter (\<lambda>t. t_boardId t = bid) (tasks s) = [] \<and>
    create_tasks_serial bid treqs s = (rs2, s2) \<and> (\<forall>r \<in> set rs2. status r = 201)"
  then have m: "map t_order (filter (\<lambda>t. t_boardId t = bid) (tasks s2)) = map int [0..<length treqs]"
    using create_tasks_serial_dense [of bid treqs s rs2 s2 0] by simp
  show "length rs2 = length treqs" using a create_tasks_serial_length by blast
  show "map t_order (filter (\<lambda>t. t_boardId t = bid) (tasks s2)) = map int [0..<length treqs]"
    by (rule m)
  have "set (map t_order (filter (\<lambda>t. t_boardId t = bid) (tasks s2))) = int ` {0..<length treqs}"
    unfolding m by simp
  then show "t_order ` set (filter (\<lambda>t. t_boardId t = bid) (tasks s2)) = int ` {0..<length treqs}"
    by simp
  show "distinct (map t_order (filter (\<lambda>t. t_boardId t = bid) (tasks s2)))"
    unfolding m by (simp add: distinct_map)
qed


theorem serial_creates_dense_witness:
  "filter (\<lambda>b. b_projectId b = ''pZ'') (boards demo_store) = [] \<and>
   map status (fst (create_boards_serial ''pZ'' demo_board_creates demo_registry demo_store)) =
     [201, 201, 201] \<and>
   map b_order (filter (\<lambda>b. b_projectId b = ''pZ'')
     (boards (snd (create_boards_serial ''pZ'' demo_board_creates demo_registry demo_store)))) =
     [0, 1, 2] \<and>
   filter (\<lambda>t. t_boardId t = ''bC'') (tasks demo_store) = [] \<and>
   map status (fst (create_tasks_serial ''bC'' demo_task_creates demo_store)) = [201, 201] \<and>
   map t_order (filter (\<lambda>t. t_boardId t = ''bC'')
     (tasks (snd (create_tasks_serial ''bC'' demo_task_creates demo_store)))) = [0, 1]"
proof -
  have a: "filter (\<lambda>b. b_projectId b = ''pZ'') (boards demo_store) = []"
    "filter (\<lambda>t. t_boardId t = ''bC'') (tasks demo_store) = []"
    by (simp_all add: demo_store_def)
  have b: "map status (fst (create_boards_serial ''pZ'' demo_board_creates demo_registry demo_store)) =
      [201, 201, 201]"
    by (simp add: demo_board_creates_def post_boards_rt_def board_findFirst_desc_def
        board_create_def respond_def demo_store_def board_ids_def project_ids_def int4_def Let_def)
  have c: "map status (fst (create_tasks_serial ''bC'' demo_task_creates demo_store)) = [201, 201]"
    by (simp add: demo_task_creates_def post_tasks_def task_findFirst_desc_def
        task_create_def respond_def demo_store_def board_ids_def task_ids_def int4_def Let_def)
  have d: "length demo_board_creates = 3" "length demo_task_creates = 2"
    "[0..<3] = [0, 1, 2]" "[0..<2] = [0, 1]"
    by (simp_all add: demo_board_creates_def demo_task_creates_def upt_rec)
  have b': "\<forall>r \<in> set (fst (create_boards_serial ''pZ'' demo_board_creates demo_registry demo_store)).
      status r = 201"
  proof
    fix r assume "r \<in> set (fst (create_boards_serial ''pZ'' demo_board_creates demo_registry demo_store))"
    then have "status r \<in> set (map status
        (fst (create_boards_serial ''pZ'' demo_board_creates demo_registry demo_store)))"
      by (simp del: create_boards_serial.simps)
    then show "status r = 201" unfolding b by simp
  qed
  have c': "\<forall>r \<in> set (fst (create_tasks_serial ''bC'' demo_task_creates demo_store)). status r = 201"
  proof
    fix r assume "r \<in> set (fst (create_tasks_serial ''bC'' demo_task_creates demo_store))"
    then have "status r \<in> set (map status (fst (create_tasks_serial ''bC'' demo_task_creates demo_store)))"
      by (simp del: create_tasks_serial.simps)
    then show "status r = 201" unfolding c by simp
  qed
  show ?thesis
    using a b c b' c' serial_creates_dense [of "''pZ''" demo_store demo_board_creates demo_registry
        "fst (create_boards_serial ''pZ'' demo_board_creates demo_registry demo_store)"
        "snd (create_boards_serial ''pZ'' demo_board_creates demo_registry demo_store)"
        "''bC''" demo_task_creates
        "fst (create_tasks_serial ''bC'' demo_task_creates demo_store)"
        "snd (create_tasks_serial ''bC'' demo_task_creates demo_store)"]
    by (simp add: d)
qed

section \<open>Cascading deletes\<close>

lemma wf_project_delete:
  assumes "wf_store s" and "project_delete s pid = Inr s'"
  shows "wf_store s'"
proof -
  let ?gone = "map b_id (filter (\<lambda>b. b_projectId b = pid) (boards s))"
  from assms(2) have s': "projects s' = filter (\<lambda>p. p_id p \<noteq> pid) (projects s)"
    "boards s' = filter (\<lambda>b. b_projectId b \<noteq> pid) (boards s)"
    "tasks s' = filter (\<lambda>t. t_boardId t \<notin> set ?gone) (tasks s)"
    by (auto simp: project_delete_def Let_def split: if_splits)
  have d: "distinct (project_ids s')" "distinct (board_ids s')" "distinct (task_ids s')"
    using assms(1) by (simp_all add: wf_store_def project_ids_def board_ids_def task_ids_def s'
        distinct_map_filter)
  have fb: "\<forall>b \<in> set (boards s'). b_projectId b \<in> set (project_ids s')"
    using assms(1) by (auto simp: wf_store_def project_ids_def s')
  have ft: "\<forall>t \<in> set (tasks s'). t_boardId t \<in> set (board_ids s')"
  proof
    fix t assume t: "t \<in> set (tasks s')"
    then have "t \<in> set (tasks s)" "t_boardId t \<notin> set ?gone" by (auto simp: s')
    moreover from this assms(1) obtain b where "b \<in> set (boards s)" "b_id b = t_boardId t"
      by (auto simp: wf_store_def board_ids_def)
    ultimately show "t_boardId t \<in> set (board_ids s')"
      by (force simp: board_ids_def s')
  qed
  from d fb ft show ?thesis by (simp add: wf_store_def)
qed

lemma wf_board_delete:
  assumes "wf_store s" and "board_delete s bid = Inr s'"
  shows "wf_store s'"
proof -
  from assms(2) have s': "projects s' = projects s"
    "boards s' = filter (\<lambda>b. b_id b \<noteq> bid) (boards s)"
    "tasks s' = filter (\<lambda>t. t_boardId t \<noteq> bid) (tasks s)"
    by (auto simp: board_delete_def split: if_splits)
  show ?thesis
    using assms(1)
    by (auto simp: wf_store_def project_ids_def board_ids_def task_ids_def s' distinct_map_filter)
qed

lemma wf_task_delete:
  assumes "wf_store s" and "task_delete s tid = Inr s'"
  shows "wf_store s'"
proof -
  from assms(2) have s': "projects s' = projects s" "boards s' = boards s"
    "tasks s' = filter (\<lambda>t. t_id t \<noteq> tid) (tasks s)"
    by (auto simp: task_delete_def split: if_splits)
  show ?thesis
    using assms(1)
    by (auto simp: wf_store_def project_ids_def board_ids_def task_ids_def s' distinct_map_filter)
qed

lemma find_None_ids: "(find (\<lambda>x. f x = i) xs = None) = (i \<notin> set (map f xs))"
  by (auto simp: find_None_iff)

lemma project_delete_cascade:
  assumes wf: "wf_store s" and del: "project_delete s pid = Inr s'"
    and b: "b \<in> set (boards s)" "b_projectId b = pid"
  shows "findBoard s' (b_id b) = None"
    and "\<forall>t \<in> set (tasks s). t_boardId t = b_id b \<longrightarrow> findTask s' (t_id t) = None"
proof -
  let ?gone = "map b_id (filter (\<lambda>b. b_projectId b = pid) (boards s))"
  from del have s': "boards s' = filter (\<lambda>b. b_projectId b \<noteq> pid) (boards s)"
    "tasks s' = filter (\<lambda>t. t_boardId t \<notin> set ?gone) (tasks s)"
    by (auto simp: project_delete_def Let_def split: if_splits)
  from wf have injb: "inj_on b_id (set (boards s))" and injt: "inj_on t_id (set (tasks s))"
    by (simp_all add: wf_store_def board_ids_def task_ids_def distinct_map)
  show "findBoard s' (b_id b) = None"
    unfolding findBoard_def find_None_ids
  proof
    assume "b_id b \<in> set (map b_id (boards s'))"
    then obtain b' where "b' \<in> set (boards s)" "b_projectId b' \<noteq> pid" "b_id b' = b_id b"
      by (auto simp: s')
    with injb b show False by (auto simp: inj_on_def)
  qed
  show "\<forall>t \<in> set (tasks s). t_boardId t = b_id b \<longrightarrow> findTask s' (t_id t) = None"
  proof (intro ballI impI)
    fix t assume t: "t \<in> set (tasks s)" "t_boardId t = b_id b"
    show "findTask s' (t_id t) = None"
      unfolding findTask_def find_None_ids
    proof
      assume "t_id t \<in> set (map t_id (tasks s'))"
      then obtain t' where t': "t' \<in> set (tasks s)" "t_boardId t' \<notin> set ?gone" "t_id t' = t_id t"
        by (auto simp: s')
      with injt t have "t' = t" by (auto simp: inj_on_def)
      with t' t b show False by auto
    qed
  qed
qed

text \<open>
  C8. On a store that satisfies the schema's key constraints, a project delete that
  succeeds (status 204) removes every board of the project and every task of those
  boards: a lookup of any of their ids in the store it returns finds nothing. Whatever
  their outcome, a project delete, a board delete and a task delete each return a store
  that satisfies the constraints again, so every surviving board refers to an existing
  project and every surviving task to an existing board.
\<close>

theorem delete_cascades:
  assumes "wf_store s"
  shows "(delete_project pid s = (r, s') \<and> status r = 204 \<longrightarrow>
            (\<forall>b \<in> set (boards s). b_projectId b = pid \<longrightarrow>
               findBoard s' (b_id b) = None \<and>
               (\<forall>t \<in> set (tasks s). t_boardId t = b_id b \<longrightarrow> findTask s' (t_id t) = None))) \<and>
         wf_store (snd (delete_project pid s)) \<and>
         wf_store (snd (delete_board bid s)) \<and>
         wf_store (snd (delete_task tid s))"
proof (intro conjI impI)
  assume a: "delete_project pid s = (r, s') \<and> status r = 204"
  then have del: "project_delete s pid = Inr s'"
    by (auto simp: delete_project_def respond_def split: sum.splits)
  show "\<forall>b \<in> set (boards s). b_projectId b = pid \<longrightarrow>
          findBoard s' (b_id b) = None \<and>
          (\<forall>t \<in> set (tasks s). t_boardId t = b_id b \<longrightarrow> findTask s' (t_id t) = None)"
    using project_delete_cascade [OF assms del] by blast
next
  show "wf_store (snd (delete_project pid s))"
    using assms wf_project_delete [OF assms]
    by (auto simp: delete_project_def split: sum.splits)
  show "wf_store (snd (delete_board bid s))"
    using assms wf_board_delete [OF assms]
    by (auto simp: delete_board_def split: sum.splits)
  show "wf_store (snd (delete_task tid s))"
    using assms wf_task_delete [OF assms]
    by (auto simp: delete_task_def split: sum.splits)
qed


theorem delete_cascades_witness:
  "wf_store demo_store \<and>
   status (fst (delete_project ''pX'' demo_store)) = 204 \<and>
   findBoard (snd (delete_project ''pX'' demo_store)) ''bA'' = None \<and>
   findBoard (snd (delete_project ''pX'' demo_store)) ''bB'' = None \<and>
   findTask (snd (delete_project ''pX'' demo_store)) ''t1'' = None \<and>
   findTask (snd (delete_project ''pX'' demo_store)) ''t2'' = None \<and>
   findTask (snd (delete_project ''pX'' demo_store)) ''t3'' = None \<and>
   wf_store (snd (delete_project ''pX'' demo_store)) \<and>
   wf_store (snd (delete_board ''bA'' demo_store)) \<and>
   wf_store (snd (delete_task ''t1'' demo_store))"
proof -
  have a: "wf_store demo_store"
    by (simp add: wf_store_def demo_store_def project_ids_def board_ids_def task_ids_def)
  have b: "status (fst (delete_project ''pX'' demo_store)) = 204"
    by (simp add: delete_project_def project_delete_def respond_def demo_store_def
        project_ids_def Let_def)
  have c: "boards demo_store =
      [\<lparr>b_id = ''bA'', b_name = ''todo'', b_order = 0, b_projectId = ''pX''\<rparr>,
       \<lparr>b_id = ''bB'', b_name = ''done'', b_order = 1, b_projectId = ''pX''\<rparr>,
       \<lparr>b_id = ''bC'', b_name = ''todo'', b_order = 0, b_projectId = ''pY''\<rparr>]"
    "tasks demo_store =
      [\<lparr>t_id = ''t1'', t_title = ''write'', t_description = None, t_order = 0,
        t_boardId = ''bA'', t_createdAt = 10, t_updatedAt = 10\<rparr>,
       \<lparr>t_id = ''t2'', t_title = ''test'', t_description = Some ''all'', t_order = 1,
        t_boardId = ''bA'', t_createdAt = 20, t_updatedAt = 25\<rparr>,
       \<lparr>t_id = ''t3'', t_title = ''ship'', t_description = None, t_order = 0,
        t_boardId = ''bB'', t_createdAt = 30, t_updatedAt = 30\<rparr>]"
    by (simp_all add: demo_store_def)
  show ?thesis
    using a b delete_cascades [OF a, of "''pX''" "fst (delete_project ''pX'' demo_store)"
        "snd (delete_project ''pX'' demo_store)" "''bA''" "''t1''"]
    by (simp add: c)
qed

section \<open>Fan-out of a created board\<close>

lemma room_members:
  "set (map fst (filter (\<lambda>(sid, r). r = room) reg)) = {sid. (sid, room) \<in> set reg}"
  by (induction reg) auto

lemma to_emit_iff: "((sid, ev) \<in> set (to_emit reg room ev')) = (ev = ev' \<and> (sid, room) \<in> set reg)"
proof -
  have "set (to_emit reg room ev') = (\<lambda>sid. (sid, ev')) ` {sid. (sid, room) \<in> set reg}"
    unfolding to_emit_def set_map set_remdups room_members [symmetric] by simp
  then show ?thesis by auto
qed

lemma to_emit_distinct: "distinct (to_emit reg room ev)"
  by (simp add: to_emit_def distinct_map inj_on_def)

lemma join_iff: "(x \<in> set (join sid room reg)) = (x = (sid, room) \<or> x \<in> set reg)"
  by (auto simp: join_def)

lemma post_boards_rt_201:
  assumes "post_boards_rt p name new_id reg s = (r, s', ds)" and "status r = 201"
  shows "\<exists>nb. body r = BoardJson nb \<and> nb \<in> set (boards s') \<and>
           ds = to_emit reg p (BoardCreated nb)"
proof (cases "truthy name")
  case False
  then have "post_boards_rt p name new_id reg s =
      (respond 400 (Message ''Board name is required''), s, [])"
    by (simp add: post_boards_rt_def)
  with assms(1) have "r = respond 400 (Message ''Board name is required'')" by simp
  then have "status r = 400" by (simp add: respond_def)
  with assms(2) show ?thesis by simp
next
  case True
  define ord where
    "ord = (case board_findFirst_desc s p of Some l \<Rightarrow> b_order l + 1 | None \<Rightarrow> 0)"
  have eq: "post_boards_rt p name new_id reg s =
      (case board_create s new_id name p ord of
         Inl e \<Rightarrow> (respond 500 (Message ''Failed to create board''), s, [])
       | Inr (nb, s1) \<Rightarrow> (respond 201 (BoardJson nb), s1, to_emit reg p (BoardCreated nb)))"
    unfolding ord_def post_boards_rt_def Let_def using True by simp
  show ?thesis
  proof (cases "board_create s new_id name p ord")
    case (Inl e)
    with eq assms(1) have "r = respond 500 (Message ''Failed to create board'')" by simp
    then have "status r = 500" by (simp add: respond_def)
    with assms(2) show ?thesis by simp
  next
    case (Inr x)
    obtain nb s1 where x: "x = (nb, s1)" by (cases x)
    with Inr eq assms(1) have "r = respond 201 (BoardJson nb)" "s' = s1"
      "ds = to_emit reg p (BoardCreated nb)"
      by simp_all
    moreover from Inr x have "nb \<in> set (boards s1)"
      by (auto simp: board_create_def Let_def split: if_splits)
    ultimately have "body r = BoardJson nb \<and> nb \<in> set (boards s') \<and>
        ds = to_emit reg p (BoardCreated nb)"
      by (simp add: respond_def)
    then show ?thesis by blast
  qed
qed

text \<open>
  C9. For every registry, when the Socket.IO server's handler creates a board under
  project \<open>p\<close> (status 201), the deliveries are \<open>board:created\<close> events carrying the new
  board, one for each socket that is in room \<open>p\<close> and none for any other socket: a socket
  gets the event if and only if the registry has it in room \<open>p\<close>. In particular a socket
  that sent \<open>joinProject p\<close> gets it, and a socket that is only in rooms other than \<open>p\<close>
  does not.
\<close>

theorem board_created_fanout:
  assumes "post_boards_rt p name new_id reg s = (r, s', ds)" and "status r = 201"
  shows "\<exists>nb. body r = BoardJson nb \<and> nb \<in> set (boards s') \<and>
           (\<forall>sid. ((sid, BoardCreated nb) \<in> set ds) = ((sid, p) \<in> set reg)) \<and>
           (\<forall>d \<in> set ds. snd d = BoardCreated nb) \<and> distinct ds"
proof -
  from post_boards_rt_201 [OF assms] obtain nb where
    nb: "body r = BoardJson nb" "nb \<in> set (boards s')" "ds = to_emit reg p (BoardCreated nb)"
    by blast
  note nb(2)
  moreover have "\<forall>sid. ((sid, BoardCreated nb) \<in> set ds) = ((sid, p) \<in> set reg)"
    by (simp add: nb(3) to_emit_iff)
  moreover have "\<forall>d \<in> set ds. snd d = BoardCreated nb"
    by (auto simp: nb(3) to_emit_def)
  moreover have "distinct ds"
    by (simp add: nb(3) to_emit_distinct)
  ultimately show ?thesis using nb(1) by blast
qed

theorem board_created_fanout_witness:
  "status (fst (post_boards_rt ''pX'' (Str ''later'') ''bN'' demo_registry demo_store)) = 201 \<and>
   (''s1'', ''pX'') \<in> set demo_registry \<and> (''s2'', ''pX'') \<notin> set demo_registry \<and>
   (''s2'', ''pY'') \<in> set demo_registry \<and>
   (\<exists>nb. body (fst (post_boards_rt ''pX'' (Str ''later'') ''bN'' demo_registry demo_store)) =
            BoardJson nb \<and>
      (''s1'', BoardCreated nb) \<in>
        set (snd (snd (post_boards_rt ''pX'' (Str ''later'') ''bN'' demo_registry demo_store))) \<and>
      (''s2'', BoardCreated nb) \<notin>
        set (snd (snd (post_boards_rt ''pX'' (Str ''later'') ''bN'' demo_registry demo_store))))"
proof -
  have a: "status (fst (post_boards_rt ''pX'' (Str ''later'') ''bN'' demo_registry demo_store)) = 201"
    by (simp add: post_boards_rt_def board_findFirst_desc_def board_create_def respond_def
        demo_store_def board_ids_def project_ids_def int4_def Let_def)
  have b: "(''s1'', ''pX'') \<in> set demo_registry" "(''s2'', ''pX'') \<notin> set demo_registry"
    "(''s2'', ''pY'') \<in> set demo_registry"
    by (simp_all add: demo_registry_def on_joinProject_def on_connection_def join_def)
  obtain r s' ds where
    c: "post_boards_rt ''pX'' (Str ''later'') ''bN'' demo_registry demo_store = (r, s', ds)"
    by (cases "post_boards_rt ''pX'' (Str ''later'') ''bN'' demo_registry demo_store")
  from a c have a': "status r = 201" by simp
  from board_created_fanout [OF c a'] obtain nb where
    "body r = BoardJson nb"
    "\<forall>sid. ((sid, BoardCreated nb) \<in> set ds) = ((sid, ''pX'') \<in> set demo_registry)"
    by blast
  with b have "body r = BoardJson nb \<and> (''s1'', BoardCreated nb) \<in> set ds \<and>
      (''s2'', BoardCreated nb) \<notin> set ds"
    by blast
  then show ?thesis using a b by (auto simp: c)
qed

section \<open>Partial update of a task\<close>








section \<open>The schema's constraints are kept by every write\<close>

lemma wf_board_create:
  "wf_store s \<Longrightarrow> board_create s new_id name p ord = Inr (b, s') \<Longrightarrow> wf_store s'"
  by (auto simp: board_create_def wf_store_def project_ids_def board_ids_def task_ids_def Let_def
      split: if_splits)

lemma wf_task_create:
  "wf_store s \<Longrightarrow> task_create s new_id title description b ord ca ua = Inr (t, s') \<Longrightarrow> wf_store s'"
  by (auto simp: task_create_def wf_store_def project_ids_def board_ids_def task_ids_def Let_def
      split: if_splits)

lemma wf_task_update_order:
  assumes "wf_store s" and "task_update_order now s w ord b = Inr s'"
  shows "wf_store s'"
proof -
  note u = task_update_order_Inr [OF assms(2)] and ids = task_update_order_ids [OF assms(2)]
  have "\<forall>t \<in> set (tasks s'). t_boardId t \<in> set (board_ids s')"
    using assms(1) u ids by (auto simp: wf_store_def)
  moreover have "project_ids s' = project_ids s" using u by (simp add: project_ids_def)
  ultimately show ?thesis using assms(1) u ids by (simp add: wf_store_def)
qed

lemma wf_transaction: "wf_store s \<Longrightarrow> transaction clk k s us = Inr s' \<Longrightarrow> wf_store s'"
proof (induction us arbitrary: s k)
  case Nil
  then show ?case by simp
next
  case (Cons u us)
  obtain w ord b where u: "u = TaskUpdate w ord b" by (cases u)
  from Cons.prems(2) u obtain s1 where s1: "task_update_order (clk k) s w ord b = Inr s1"
    and rest: "transaction clk (Suc k) s1 us = Inr s'"
    by (auto split: sum.splits)
  from Cons.IH [OF wf_task_update_order [OF Cons.prems(1) s1] rest] show ?case .
qed

lemma wf_task_update_fields:
  assumes "wf_store s" and "task_update_fields now s i d = Inr (t', s')"
  shows "wf_store s'"
proof -
  from assms(2)
  have s': "s' = s\<lparr>tasks := map (\<lambda>t. if t_id t = i then apply_data d now t else t) (tasks s)\<rparr>"
    by (auto simp: task_update_fields_def split: option.splits if_splits)
  have ids: "task_ids s' = task_ids s"
    by (simp add: s' task_ids_def apply_data_def comp_def if_distrib cong: if_cong)
  have same: "board_ids s' = board_ids s" "project_ids s' = project_ids s" "boards s' = boards s"
    by (simp_all add: s' board_ids_def project_ids_def)
  have fk: "\<forall>t \<in> set (tasks s'). t_boardId t \<in> set (board_ids s)"
    using assms(1) by (auto simp: s' wf_store_def apply_data_def)
  show ?thesis
    using assms(1) fk unfolding wf_store_def ids same by blast
qed

section \<open>When a reorder commits\<close>

text \<open>
  A request that names only existing tasks, by non-empty ids, for an existing board is
  committed by both handlers.
\<close>

lemma reorder_commits:
  assumes "truthy (req_boardId req)" and "req_orderedTasks req = Some es"
    and "is_string (set_value (req_boardId req))" and "str_of (set_value (req_boardId req)) \<in> set (board_ids s)"
    and "\<forall>e \<in> set es. \<exists>tid. elem_id e = Str tid \<and> tid \<noteq> [] \<and> tid \<in> set (task_ids s)"
    and "length es \<le> 2147483648"
  shows "status (fst (reorder_post req clk s)) = 200 \<and> status (fst (reorder_patch req clk s)) = 200"
proof -
  let ?b = "req_boardId req"
  have tr: "\<forall>e \<in> set es. truthy (elem_id e)" using assms(5) by auto
  have nn: "ElemNull \<notin> set es" using assms(5) by auto
  have "\<forall>j < length (map elem_id es).
      \<exists>x. exec_update (clk (0 + j)) s (TaskUpdate (map elem_id es ! j) (int (0 + j)) ?b) = Inr x"
  proof (intro allI impI)
    fix j assume j: "j < length (map elem_id es)"
    then obtain tid where "elem_id (es ! j) = Str tid" "tid \<in> set (task_ids s)"
      using assms(5) by (metis length_map nth_mem)
    moreover have "int4 (int j)" using j assms(6) by (simp add: int4_def)
    ultimately show
      "\<exists>x. exec_update (clk (0 + j)) s (TaskUpdate (map elem_id es ! j) (int (0 + j)) ?b) = Inr x"
      using j assms(3,4) by (simp add: task_update_order_def)
  qed
  from transaction_commits [OF this] obtain s' where
    c: "transaction clk 0 s (ops_from ?b 0 (map elem_id es)) = Inr s'" by blast
  have post: "updatePromises_post ?b 0 es = Inr (ops_from ?b 0 (map elem_id es))"
  proof (cases "updatePromises_post ?b 0 es")
    case (Inl e)
    from updatePromises_post_Inl [OF Inl] tr show ?thesis by blast
  next
    case (Inr us)
    from updatePromises_post_Inr [OF Inr] Inr show ?thesis by simp
  qed
  have patch: "updatePromises_patch ?b 0 es = Inr (ops_from ?b 0 (map elem_id es))"
  proof (cases "updatePromises_patch ?b 0 es")
    case (Inl e)
    from updatePromises_patch_Inl [OF Inl] nn show ?thesis by blast
  next
    case (Inr us)
    from updatePromises_patch_Inr [OF Inr] Inr show ?thesis by simp
  qed
  have "status (fst (reorder_post req clk s)) = 200"
  proof (cases "es = []")
    case True
    then show ?thesis using assms(1,2) by (simp add: reorder_post_def respond_def)
  next
    case False
    then show ?thesis using post c by (simp add: reorder_post_unfold [OF assms(1,2)] respond_def)
  qed
  moreover have "status (fst (reorder_patch req clk s)) = 200"
    using patch c by (simp add: reorder_patch_unfold [OF assms(1,2)] respond_def)
  ultimately show ?thesis by simp
qed

end
